theory Spec2Isabelle
  imports Main
begin

section \<open>JavaScript values and string operations\<close>

text \<open>
  The component handles plain JavaScript objects. An optional string property is a
  \<open>string option\<close>: \<open>None\<close> is \<open>undefined\<close> (or an absent property). Identifiers of
  sections, students, groups and modules are strings, as in the type declarations of the
  tray (\<open>student_ids: string[]\<close>).
\<close>

datatype js_error = TypeError | RequestFailed

definition truthy :: "string option \<Rightarrow> bool" where
  \<comment> \<open>JavaScript truthiness of a string-or-undefined value: \<open>undefined\<close> and \<open>''\<close> are falsy.\<close>
  "truthy v = (case v of None \<Rightarrow> False | Some s \<Rightarrow> s \<noteq> [])"

definition template :: "string option \<Rightarrow> string" where
  \<comment> \<open>The text a template literal inserts for a value: \<open>`${v}`\<close>.\<close>
  "template v = (case v of None \<Rightarrow> ''undefined'' | Some s \<Rightarrow> s)"

fun includes_str :: "string \<Rightarrow> string \<Rightarrow> bool" where
  \<comment> \<open>\<open>s.includes(t)\<close>: \<open>t\<close> occurs in \<open>s\<close> as a substring.\<close>
  "includes_str [] t = (t = [])"
| "includes_str (c # cs) t = (take (length t) (c # cs) = t \<or> includes_str cs t)"

fun split_dash :: "string \<Rightarrow> string list" where
  \<comment> \<open>\<open>s.split('-')\<close>\<close>
  "split_dash [] = [[]]"
| "split_dash (c # cs) =
     (if c = CHR ''-'' then [] # split_dash cs
      else (case split_dash cs of [] \<Rightarrow> [[c]] | w # ws \<Rightarrow> (c # w) # ws))"

definition split_dash_1 :: "string \<Rightarrow> string option" where
  \<comment> \<open>\<open>s.split('-')[1]\<close>, \<open>undefined\<close> when there is no second piece.\<close>
  "split_dash_1 s = (case split_dash s of _ # b # _ \<Rightarrow> Some b | _ \<Rightarrow> None)"

fun js_set_spread :: "'a list \<Rightarrow> 'a list" where
  \<comment> \<open>\<open>[...new Set(xs)]\<close>: the distinct elements in the order of their first occurrence.\<close>
  "js_set_spread [] = []"
| "js_set_spread (x # xs) = x # js_set_spread (filter (\<lambda>y. y \<noteq> x) xs)"

definition nth_opt :: "'a list \<Rightarrow> nat \<Rightarrow> 'a option" where
  \<comment> \<open>\<open>xs[i]\<close>, \<open>undefined\<close> out of range.\<close>
  "nth_opt xs i = (if i < length xs then Some (xs ! i) else None)"

section \<open>Overrides\<close>

datatype dateval = Undefined | Null | DateStr string

datatype date_field = DueAt | UnlockAt | LockAt | ReplyToTopicDueAt | RequiredRepliesDueAt

datatype jskey = KNum nat | KStr string

record override =
  override_id :: "string option"
  course_section_id :: "string option"
  student_ids :: "string option list option"
  students :: "string list option"
  group_id :: "string option"
  noop_id :: "string option"
  course_id :: "string option"
  context_module_id :: "string option"
  context_module_name :: "string option"
  unassign_item :: "bool option"
  stagedOverrideId :: "string option"
  rowKey :: "jskey option"
  dates :: "date_field \<Rightarrow> dateval"
  overridden :: "date_field \<Rightarrow> bool option"

definition empty_override :: override where
  \<comment> \<open>The object \<open>{}\<close>: every property is absent.\<close>
  "empty_override =
     \<lparr>override_id = None, course_section_id = None, student_ids = None, students = None,
      group_id = None, noop_id = None, course_id = None, context_module_id = None,
      context_module_name = None, unassign_item = None, stagedOverrideId = None,
      rowKey = None, dates = (\<lambda>_. Undefined), overridden = (\<lambda>_. None)\<rparr>"

section \<open>AssignToContent: module assignees and the onSync recomputation\<close>

definition moduleAssigneeOf :: "override \<Rightarrow> string option list" where
  \<comment> \<open>The callback of lines 145-152 followed by \<open>.flat()\<close>: a section string, the list of
      student strings, or \<open>undefined\<close> when the callback falls off its end.\<close>
  "moduleAssigneeOf moduleOverride =
     (if truthy (course_section_id moduleOverride)
      then [Some (''section-'' @ template (course_section_id moduleOverride))]
      else (case student_ids moduleOverride of
              Some ids \<Rightarrow> map (\<lambda>i. Some (''student-'' @ template i)) ids
            | None \<Rightarrow> [None]))"

definition allModuleAssignees :: "override list \<Rightarrow> string option list" where
  "allModuleAssignees overrides =
     concat (map moduleAssigneeOf (filter (\<lambda>ov. truthy (context_module_id ov)) overrides))"

definition hasTarget :: "override \<Rightarrow> bool" where
  \<comment> \<open>The filter of lines 161-167; an array is truthy even when empty.\<close>
  "hasTarget ov =
     (truthy (course_section_id ov) \<or> student_ids ov \<noteq> None \<or> truthy (noop_id ov) \<or>
      truthy (course_id ov) \<or> truthy (group_id ov))"

definition array_includes :: "string list \<Rightarrow> string option \<Rightarrow> bool" where
  \<comment> \<open>\<open>xs.includes(v)\<close> for an array of strings: \<open>undefined\<close> is never found.\<close>
  "array_includes xs v = (case v of None \<Rightarrow> False | Some s \<Rightarrow> s \<in> set xs)"

fun filter_includes :: "string \<Rightarrow> string option list \<Rightarrow> js_error + string list" where
  \<comment> \<open>\<open>xs.filter(assignee => assignee.includes(t))\<close>: calling \<open>includes\<close> on \<open>undefined\<close>
      throws a TypeError.\<close>
  "filter_includes t [] = Inr []"
| "filter_includes t (a # as) =
     (case a of
        None \<Rightarrow> Inl TypeError
      | Some s \<Rightarrow>
          (case filter_includes t as of
             Inl e \<Rightarrow> Inl e
           | Inr r \<Rightarrow> Inr (if includes_str s t then s # r else r)))"

definition unassignStudents :: "string option list \<Rightarrow> override" where
  "unassignStudents studentIds =
     empty_override\<lparr>override_id := None, student_ids := Some studentIds,
                    unassign_item := Some True\<rparr>"

definition unassignSection :: "string option \<Rightarrow> override" where
  "unassignSection sec =
     empty_override\<lparr>override_id := None, course_section_id := sec,
                    unassign_item := Some True\<rparr>"

definition pushUnassigned :: "override list \<Rightarrow> string option list \<Rightarrow> js_error + override list" where
  \<comment> \<open>Lines 173-194: the overrides pushed for the deleted module assignees.\<close>
  "pushUnassigned newOverrides deletedModuleAssignees =
     (if length deletedModuleAssignees > 0 then
        (case filter_includes ''student'' deletedModuleAssignees of
           Inl e \<Rightarrow> Inl e
         | Inr studentStrs \<Rightarrow>
             (let studentIds = map split_dash_1 studentStrs;
                  pushed = (if length studentIds > 0
                            then newOverrides @ [unassignStudents studentIds]
                            else newOverrides)
              in (case filter_includes ''section'' deletedModuleAssignees of
                    Inl e \<Rightarrow> Inl e
                  | Inr sectionStrs \<Rightarrow>
                      Inr (pushed @ map unassignSection (map split_dash_1 sectionStrs)))))
      else Inr newOverrides)"

definition syncOverrides ::
  "(override list \<Rightarrow> override list \<Rightarrow> override list) \<Rightarrow>
   (override list \<Rightarrow> override list \<Rightarrow> override list) \<Rightarrow>
   override list \<Rightarrow> string option list \<Rightarrow> string list \<Rightarrow> override list \<Rightarrow>
   js_error + override list" where
  \<comment> \<open>The effect of lines 159-201; the result is the list handed to \<open>onSync\<close>.
      \<open>cardOverrides\<close> is what \<open>getAllOverridesFromCards(stagedCardsRef.current)\<close> returned.
      \<open>processModuleOverridesV2\<close> and \<open>resetOverrides\<close> are imported from a file that is
      not part of the sources and are parameters; \<open>resetOverrides a b\<close> stands for the
      contents of the array \<open>a\<close> after the call.\<close>
  "syncOverrides processModuleOverridesV2 resetOverrides cardOverrides moduleAssignees
       disabledOptionIds initialModuleOverrides =
     (let newOverrides = filter hasTarget cardOverrides;
          deletedModuleAssignees =
            filter (\<lambda>assignee. \<not> array_includes disabledOptionIds assignee) moduleAssignees
      in (case pushUnassigned newOverrides deletedModuleAssignees of
            Inl e \<Rightarrow> Inl e
          | Inr pushed \<Rightarrow>
              (let withoutModuleOverrides = processModuleOverridesV2 pushed initialModuleOverrides
               in Inr (resetOverrides pushed withoutModuleOverrides))))"

section \<open>Objects keyed by strings\<close>

fun digit_char :: "nat \<Rightarrow> char" where
  "digit_char n = ''0123456789'' ! (n mod 10)"

fun string_of_nat :: "nat \<Rightarrow> string" where
  "string_of_nat n =
     (if n < 10 then [digit_char n] else string_of_nat (n div 10) @ [digit_char n])"

definition key_string :: "jskey \<Rightarrow> string" where
  \<comment> \<open>\<open>String(k)\<close> for a row key, and the property name that \<open>obj[k]\<close> reads.\<close>
  "key_string k = (case k of KNum n \<Rightarrow> string_of_nat n | KStr s \<Rightarrow> s)"

definition opt_key_string :: "jskey option \<Rightarrow> string" where
  "opt_key_string k = (case k of None \<Rightarrow> ''undefined'' | Some j \<Rightarrow> key_string j)"

fun obj_set :: "(string \<times> 'a) list \<Rightarrow> string \<Rightarrow> 'a \<Rightarrow> (string \<times> 'a) list" where
  \<comment> \<open>\<open>obj[k] = v\<close> on the properties in creation order: an existing property keeps its
      place, a new one goes last.\<close>
  "obj_set [] k v = [(k, v)]"
| "obj_set ((k', v') # kvs) k v =
     (if k' = k then (k, v) # kvs else (k', v') # obj_set kvs k v)"

definition digit_value :: "char \<Rightarrow> nat" where
  "digit_value c = of_char c - 48"

definition is_digit :: "char \<Rightarrow> bool" where
  "is_digit c = (c \<in> set ''0123456789'')"

definition nat_of_digits :: "string \<Rightarrow> nat" where
  "nat_of_digits s = foldl (\<lambda>n c. 10 * n + digit_value c) 0 s"

definition is_array_index :: "string \<Rightarrow> bool" where
  \<comment> \<open>A property name that is a canonical array index: decimal digits without a leading
      zero, below \<open>2^32 - 1\<close>. Such properties are enumerated first, in numeric order.\<close>
  "is_array_index s =
     (s \<noteq> [] \<and> list_all is_digit s \<and> (s = ''0'' \<or> hd s \<noteq> CHR ''0'') \<and>
      nat_of_digits s < 4294967295)"

definition object_values :: "(string \<times> 'a) list \<Rightarrow> 'a list" where
  \<comment> \<open>\<open>Object.values(obj)\<close> for the properties in creation order.\<close>
  "object_values kvs =
     map snd (sort_key (\<lambda>kv. nat_of_digits (fst kv)) (filter (\<lambda>kv. is_array_index (fst kv)) kvs))
     @ map snd (filter (\<lambda>kv. \<not> is_array_index (fst kv)) kvs)"

section \<open>AssignToContent: staged cards and staged overrides\<close>

record staged_card =
  card_overrides :: "override list option"
  card_dates :: "(date_field \<Rightarrow> dateval) option"
  card_index :: "int option"
  card_id :: "string option"

text \<open>
  The object of staged cards, keyed by card id, is the list of its properties. The handlers
  below only look a card up by its key or assign to a key; enumerating the cards is left to
  the imported helpers (\<open>sortedRowKeys\<close>, \<open>getAllOverridesFromCards\<close>). The staged
  overrides are \<open>null\<close> until the first effect has run; the handlers are modelled from
  then on.
\<close>

type_synonym staged_cards = "(string \<times> staged_card) list"

record staged_state =
  stagedCards :: staged_cards
  stagedOverrides :: "override list"
  uidCount :: nat

text \<open>
  \<open>uid()\<close> comes from a library that is not part of the sources. It is a parameter
  \<open>uid :: nat \<Rightarrow> string\<close>: the string returned by the call number \<open>n\<close>; the number of
  calls made so far is threaded through.
\<close>

fun tagOverrides :: "(nat \<Rightarrow> string) \<Rightarrow> nat \<Rightarrow> override list \<Rightarrow> override list \<times> nat" where
  \<comment> \<open>The effect of lines 109-120.\<close>
  "tagOverrides uid n [] = ([], n)"
| "tagOverrides uid n (ov # ovs) =
     (if \<not> truthy (stagedOverrideId ov)
      then (let (r, n') = tagOverrides uid (Suc n) ovs
            in (ov\<lparr>stagedOverrideId := Some (uid n)\<rparr> # r, n'))
      else (let (r, n') = tagOverrides uid n ovs in (ov # r, n')))"

fun findIndex :: "('a \<Rightarrow> bool) \<Rightarrow> 'a list \<Rightarrow> nat option" where
  \<comment> \<open>\<open>xs.findIndex(p)\<close>, \<open>None\<close> for \<open>-1\<close>.\<close>
  "findIndex p [] = None"
| "findIndex p (x # xs) =
     (if p x then Some 0 else (case findIndex p xs of None \<Rightarrow> None | Some i \<Rightarrow> Some (Suc i)))"

definition handleAssigneeAddition ::
  "(nat \<Rightarrow> string) \<Rightarrow>
   ('a \<Rightarrow> override list option \<Rightarrow> jskey \<Rightarrow> (date_field \<Rightarrow> dateval) option \<Rightarrow> override list) \<Rightarrow>
   staged_state \<Rightarrow> jskey \<Rightarrow> 'a \<Rightarrow> js_error + staged_state" where
  \<comment> \<open>Lines 354-389. \<open>handleAssigneeAdd\<close> is \<open>CardActions.handleAssigneeAdd\<close>, imported from
      a file that is not part of the sources. Reading \<open>targetedItemCard.dates\<close> of a card
      that does not exist throws. \<open>cloneObject\<close> copies a value and is the identity here.\<close>
  "handleAssigneeAddition uid handleAssigneeAdd st cardId newAssignee =
     (case map_of (stagedCards st) (key_string cardId) of
        None \<Rightarrow> Inl TypeError
      | Some targetedItemCard \<Rightarrow>
          (let newOverridesForCard =
                 handleAssigneeAdd newAssignee (card_overrides targetedItemCard) cardId
                   (card_dates targetedItemCard);
               lastOverride = (if newOverridesForCard = [] then empty_override
                               else last newOverridesForCard);
               tagged = truthy (stagedOverrideId lastOverride);
               newOverride = (if tagged then lastOverride
                              else lastOverride\<lparr>stagedOverrideId := Some (uid (uidCount st))\<rparr>);
               updatedOverrides =
                 (case findIndex (\<lambda>ov. stagedOverrideId ov = stagedOverrideId newOverride)
                         (stagedOverrides st) of
                    Some existingOverrideIndex \<Rightarrow>
                      (stagedOverrides st)[existingOverrideIndex := newOverride]
                  | None \<Rightarrow> stagedOverrides st @ [newOverride])
           in Inr (st\<lparr>stagedOverrides := updatedOverrides,
                      uidCount := (if tagged then uidCount st else Suc (uidCount st))\<rparr>)))"

section \<open>AssignToContent: the card projection\<close>

record card_spec =
  key :: string
  isValid :: bool
  highlightCard :: "bool option"
  hasAssignees :: bool
  card_date :: "date_field \<Rightarrow> dateval"
  original_due_at :: dateval
  selectedAssigneeIds :: "string list"
  defaultOptions :: "string list option"
  overrideId :: "string option"
  index :: "int option"
  contextModuleId :: "string option"
  contextModuleName :: "string option"

text \<open>
  What the projection takes from outside the component: \<open>sortedRowKeys\<close> and
  \<open>areCardsEqual\<close> (imported helpers), the date validator (\<open>validateDatetimes\<close>, given
  the card and the three dates copied into its argument; the result is the list of keys of
  the errors object), the \<open>defaultSectionId\<close> prop, the id of the everyone option
  (\<open>getEveryoneOption(...).id\<close>) and the \<open>initialState\<close> (\<open>None\<close> while it is \<open>null\<close>).
  \<open>engineOrder\<close> belongs to the JavaScript engine: the order in which \<open>Array.prototype.sort\<close>
  leaves an array whose comparator is not consistent, as the rank it gives to each position
  of the array.
\<close>

record projection_env =
  sortedRowKeys :: "staged_cards \<Rightarrow> string list"
  areCardsEqual :: "staged_card option \<Rightarrow> staged_card \<Rightarrow> bool"
  validateDatetimes :: "staged_card \<Rightarrow> dateval \<Rightarrow> dateval \<Rightarrow> dateval \<Rightarrow> string list"
  defaultSectionId :: "string option"
  everyoneOptionKey :: string
  initialState :: "staged_cards option"
  engineOrder :: "card_spec list \<Rightarrow> nat \<Rightarrow> nat"

definition studentOptions :: "override \<Rightarrow> string list" where
  \<comment> \<open>\<open>override?.student_ids?.map(studentId => `student-${studentId}`) ?? []\<close>\<close>
  "studentOptions ov =
     (case student_ids ov of None \<Rightarrow> [] | Some ids \<Rightarrow> map (\<lambda>i. ''student-'' @ template i) ids)"

definition optionStep ::
  "projection_env \<Rightarrow> string list \<times> string list \<times> int option \<Rightarrow> override \<Rightarrow>
   string list \<times> string list \<times> int option" where
  \<comment> \<open>One round of the \<open>forEach\<close> of lines 211-234 on \<open>defaultOptions\<close>,
      \<open>selectedOptionIds\<close> and \<open>card.index\<close>.\<close>
  "optionStep env acc ov =
     (case acc of (defaultOpts, selectedOptionIds, idx) \<Rightarrow>
        (if noop_id ov = Some ''1'' then
           (let d = defaultOpts @ [''mastery_paths''] in (d, selectedOptionIds @ d, idx))
         else if course_section_id ov = defaultSectionId env then
           (let d = defaultOpts @ [everyoneOptionKey env] in (d, selectedOptionIds @ d, Some 0))
         else if truthy (course_id ov) then
           (let d = defaultOpts @ [everyoneOptionKey env] in (d, selectedOptionIds @ d, idx))
         else
           (let d = defaultOpts @ studentOptions ov
                    @ (if truthy (course_section_id ov)
                       then [''section-'' @ template (course_section_id ov)] else [])
                    @ (if truthy (group_id ov)
                       then [''group-'' @ template (group_id ov)] else [])
            in (d, selectedOptionIds @ d, idx))))"

definition mapCard ::
  "projection_env \<Rightarrow> staged_cards \<Rightarrow> string \<Rightarrow> string list \<Rightarrow>
   js_error + card_spec \<times> string list" where
  \<comment> \<open>The callback of lines 206-263 for one \<open>cardId\<close>, with \<open>selectedOptionIds\<close> passed
      through. Reading a property of a card that does not exist, or of a \<open>null\<close>
      \<open>initialState\<close>, throws.\<close>
  "mapCard env cards cardId selectedOptionIds =
     (case map_of cards cardId of
        None \<Rightarrow> Inl TypeError
      | Some c \<Rightarrow>
          (let cardOverrides = (case card_overrides c of None \<Rightarrow> [] | Some ovs \<Rightarrow> ovs);
               ds = (case card_dates c of None \<Rightarrow> (\<lambda>_. Undefined) | Some d \<Rightarrow> d)
           in (case foldl (optionStep env) ([], selectedOptionIds, card_index c) cardOverrides of
                 (defaultOpts, selected', idx) \<Rightarrow>
                   (let uniqueIds = js_set_spread defaultOpts;
                        c' = c\<lparr>card_index := idx\<rparr>
                    in (case initialState env of
                          None \<Rightarrow> Inl TypeError
                        | Some init \<Rightarrow>
                            (let isPersisted = areCardsEqual env (map_of init cardId) c';
                                 dateErrors =
                                   validateDatetimes env c' (ds DueAt) (ds UnlockAt) (ds LockAt)
                             in Inr (\<lparr>key = cardId,
                                      isValid = (length uniqueIds > 0 \<and> length dateErrors = 0),
                                      highlightCard = Some (\<not> isPersisted),
                                      hasAssignees = (length uniqueIds > 0),
                                      card_date = ds,
                                      original_due_at = Undefined,
                                      selectedAssigneeIds = uniqueIds,
                                      defaultOptions = Some uniqueIds,
                                      overrideId = card_id c,
                                      index = idx,
                                      contextModuleId =
                                        (case cardOverrides of [] \<Rightarrow> None
                                         | ov # _ \<Rightarrow> context_module_id ov),
                                      contextModuleName =
                                        (case cardOverrides of [] \<Rightarrow> None
                                         | ov # _ \<Rightarrow> context_module_name ov)\<rparr>,
                                     selected')))))))"

fun mapCards ::
  "projection_env \<Rightarrow> staged_cards \<Rightarrow> string list \<Rightarrow> string list \<Rightarrow>
   js_error + card_spec list \<times> string list" where
  "mapCards env cards [] selectedOptionIds = Inr ([], selectedOptionIds)"
| "mapCards env cards (cardId # rest) selectedOptionIds =
     (case mapCard env cards cardId selectedOptionIds of
        Inl e \<Rightarrow> Inl e
      | Inr (c, selected') \<Rightarrow>
          (case mapCards env cards rest selected' of
             Inl e \<Rightarrow> Inl e
           | Inr (cs, selected'') \<Rightarrow> Inr (c # cs, selected'')))"

definition index_not_after :: "card_spec \<Rightarrow> card_spec \<Rightarrow> bool" where
  \<comment> \<open>The comparator \<open>cardA.index - cardB.index\<close> is not positive.\<close>
  "index_not_after a b =
     (case (index a, index b) of (Some x, Some y) \<Rightarrow> x - y \<le> 0 | _ \<Rightarrow> True)"

fun insertCard :: "card_spec \<Rightarrow> card_spec list \<Rightarrow> card_spec list" where
  "insertCard c [] = [c]"
| "insertCard c (d # ds) = (if index_not_after c d then c # d # ds else d # insertCard c ds)"

definition sortCards :: "projection_env \<Rightarrow> card_spec list \<Rightarrow> card_spec list" where
  \<comment> \<open>\<open>mappedCards.sort((cardA, cardB) => cardA.index - cardB.index)\<close> of line 265. When
      every card has an index the comparator is consistent and the sort, which is stable,
      orders the cards by index. With an undefined index the comparator returns \<open>NaN\<close> and
      the order is the engine's: some rearrangement of the same cards.\<close>
  "sortCards env cs =
     (if list_all (\<lambda>c. index c \<noteq> None) cs then foldr insertCard cs []
      else map snd (sort_key (\<lambda>ic. engineOrder env cs (fst ic)) (enumerate 0 cs)))"

definition cards ::
  "projection_env \<Rightarrow> staged_cards \<Rightarrow> js_error + card_spec list \<times> string list" where
  \<comment> \<open>The \<open>useMemo\<close> of lines 203-269: the sorted cards, and the list given to
      \<open>setDisabledOptionIds\<close>.\<close>
  "cards env staged =
     (case mapCards env staged (sortedRowKeys env staged) [] of
        Inl e \<Rightarrow> Inl e
      | Inr (mappedCards, selectedOptionIds) \<Rightarrow>
          Inr (sortCards env mappedCards, selectedOptionIds))"

section \<open>AssignToContent: the edit handlers\<close>

definition stripAssignee :: "override \<Rightarrow> override" where
  \<comment> \<open>The six \<open>delete\<close> statements of lines 409-414.\<close>
  "stripAssignee existingOverrideData =
     existingOverrideData\<lparr>student_ids := None, students := None, course_section_id := None,
                          group_id := None, noop_id := None, course_id := None\<rparr>"

definition uniqueByStagedId :: "override list \<Rightarrow> override list" where
  \<comment> \<open>Lines 419-424: the overrides are stored in an object under their
      \<open>stagedOverrideId\<close> (the key \<open>undefined\<close> when they have none), a later one replacing
      an earlier one, and read back with \<open>Object.values\<close>.\<close>
  "uniqueByStagedId ovs =
     object_values (foldl (\<lambda>uniqueMap ov. obj_set uniqueMap (template (stagedOverrideId ov)) ov) [] ovs)"

text \<open>
  \<open>getAllOverridesFromCards\<close> hands out the override objects of the cards themselves, and
  the handler below changes one of them in place. So what that helper returns is a list of
  references: to the override at a position of the \<open>overrides\<close> array of a card, or to an
  object of its own. Reading a reference gives the override as the cards hold it at that
  moment; a reference to a place that holds no override names no object and is passed over.
\<close>

datatype override_ref = CardOverride string nat | NewOverride override

definition readOverride :: "staged_cards \<Rightarrow> override_ref \<Rightarrow> override option" where
  "readOverride cs r =
     (case r of
        NewOverride ov \<Rightarrow> Some ov
      | CardOverride k i \<Rightarrow>
          (case map_of cs k of
             None \<Rightarrow> None
           | Some c \<Rightarrow> (case card_overrides c of None \<Rightarrow> None | Some ovs \<Rightarrow> nth_opt ovs i)))"

definition handleAssigneeDeletion ::
  "(staged_cards \<Rightarrow> override_ref list) \<Rightarrow> ('t \<Rightarrow> override list option \<Rightarrow> override list) \<Rightarrow>
   staged_state \<Rightarrow> jskey \<Rightarrow> 't \<Rightarrow> js_error + staged_state" where
  \<comment> \<open>Lines 391-427. \<open>getAllOverridesFromCards\<close> and \<open>CardActions.handleAssigneeRemove\<close> are
      imported from files that are not part of the sources. \<open>nonTargetedOverrides\<close> is
      filtered (line 395, strict comparison of \<open>rowKey\<close>) before the \<open>delete\<close> statements of
      lines 409-414 and read after them: these change the first override of the card itself,
      inside \<open>stagedCardsRef.current\<close>, and with it every reference to that object. On a card
      without a first override they throw.\<close>
  "handleAssigneeDeletion getAllOverridesFromCards handleAssigneeRemove st cardId tokenToRemove =
     (let targetedItemCard = map_of (stagedCards st) (key_string cardId);
          nonTargetedOverrides =
            filter (\<lambda>r. case readOverride (stagedCards st) r of
                          None \<Rightarrow> False
                        | Some ov \<Rightarrow> rowKey ov \<noteq> Some cardId)
              (getAllOverridesFromCards (stagedCards st));
          targetedItemCardOverrides =
            (case targetedItemCard of None \<Rightarrow> None | Some c \<Rightarrow> card_overrides c);
          remainingCardOverrides = handleAssigneeRemove tokenToRemove targetedItemCardOverrides
      in if length remainingCardOverrides = 0 then
           (case (targetedItemCard, targetedItemCardOverrides) of
              (Some c, Some (existingOverrideData # rest)) \<Rightarrow>
                (let placeholder = stripAssignee existingOverrideData;
                     newCards =
                       obj_set (stagedCards st) (key_string cardId)
                         (c\<lparr>card_overrides := Some (placeholder # rest)\<rparr>)
                 in Inr (st\<lparr>stagedCards := newCards,
                            stagedOverrides :=
                              uniqueByStagedId
                                ([placeholder]
                                 @ List.map_filter (readOverride newCards) nonTargetedOverrides)\<rparr>))
            | _ \<Rightarrow> Inl TypeError)
         else Inr (st\<lparr>stagedOverrides :=
                        uniqueByStagedId
                          (remainingCardOverrides
                           @ List.map_filter (readOverride (stagedCards st))
                               nonTargetedOverrides)\<rparr>))"

definition date_truthy :: "dateval \<Rightarrow> bool" where
  "date_truthy d = (case d of DateStr s \<Rightarrow> s \<noteq> [] | _ \<Rightarrow> False)"

definition handleDatesUpdate ::
  "(override option \<Rightarrow> date_field \<Rightarrow> dateval) \<Rightarrow>
   staged_state \<Rightarrow> jskey \<Rightarrow> date_field \<Rightarrow> dateval \<Rightarrow> staged_state" where
  \<comment> \<open>Lines 325-352 with \<open>updateCard\<close> (lines 297-305) inlined. \<open>datesFromOverride\<close> is an
      imported helper; it is called on \<open>newOverrides[0]\<close> when the card has no dates.\<close>
  "handleDatesUpdate datesFromOverride st cardId dateType newDate =
     (let cardOpt = map_of (stagedCards st) (key_string cardId);
          oldOverrides =
            (case cardOpt of None \<Rightarrow> []
             | Some c \<Rightarrow> (case card_overrides c of None \<Rightarrow> [] | Some ovs \<Rightarrow> ovs));
          oldDates = (case cardOpt of None \<Rightarrow> None | Some c \<Rightarrow> card_dates c);
          date = (if newDate = DateStr [] then Null else newDate);
          newOverrides =
            map (\<lambda>ov. ov\<lparr>dates := (dates ov)(dateType := date),
                         overridden := (overridden ov)(dateType := Some (date_truthy date))\<rparr>)
              oldOverrides;
          newDates = (case oldDates of None \<Rightarrow> None | Some d \<Rightarrow> Some (d(dateType := date)));
          cardDates =
            (case newDates of
               Some d \<Rightarrow> d
             | None \<Rightarrow> datesFromOverride (case newOverrides of [] \<Rightarrow> None | ov # _ \<Rightarrow> Some ov));
          currentIndex = (case cardOpt of None \<Rightarrow> None | Some c \<Rightarrow> card_index c);
          newCards =
            obj_set (stagedCards st) (key_string cardId)
              \<lparr>card_overrides = Some newOverrides, card_dates = Some cardDates,
               card_index = currentIndex, card_id = None\<rparr>;
          updatedOverrides =
            map (\<lambda>ov. if opt_key_string (rowKey ov) = key_string cardId
                       then ov\<lparr>dates := (dates ov)(dateType := newDate)\<rparr> else ov)
              (stagedOverrides st)
      in st\<lparr>stagedCards := newCards, stagedOverrides := updatedOverrides\<rparr>)"

type_synonym props = "(string \<times> string option) list"

fun deleteEach ::
  "(staged_state \<Rightarrow> 't \<Rightarrow> js_error + staged_state) \<Rightarrow> staged_state \<Rightarrow> 't list \<Rightarrow>
   js_error + staged_state" where
  "deleteEach del st [] = Inr st"
| "deleteEach del st (deleted # rest) =
     (case del st deleted of Inl e \<Rightarrow> Inl e | Inr st' \<Rightarrow> deleteEach del st' rest)"

definition handleChange ::
  "(nat \<Rightarrow> string) \<Rightarrow>
   (props \<Rightarrow> override list option \<Rightarrow> jskey \<Rightarrow> (date_field \<Rightarrow> dateval) option \<Rightarrow> override list) \<Rightarrow>
   (staged_cards \<Rightarrow> override_ref list) \<Rightarrow> (props \<Rightarrow> override list option \<Rightarrow> override list) \<Rightarrow>
   staged_state \<Rightarrow> jskey \<Rightarrow> props \<Rightarrow> props list \<Rightarrow> js_error + staged_state" where
  \<comment> \<open>Lines 312-323. An assignee object is the list of its properties, so
      \<open>Object.keys(newAssignee).length\<close> is the length of the list.\<close>
  "handleChange uid handleAssigneeAdd getAllOverridesFromCards handleAssigneeRemove st cardId
       newAssignee deletedAssignees =
     (case (if length newAssignee > 0
            then handleAssigneeAddition uid handleAssigneeAdd st cardId newAssignee
            else Inr st) of
        Inl e \<Rightarrow> Inl e
      | Inr st' \<Rightarrow>
          (if length deletedAssignees > 0
           then deleteEach
                  (\<lambda>s deleted.
                     handleAssigneeDeletion getAllOverridesFromCards handleAssigneeRemove s cardId
                       deleted)
                  st' deletedAssignees
           else Inr st'))"

section \<open>ItemAssignToTrayContent: the assignee-change handler\<close>

record assignee_option =
  option_id :: string
  option_value :: "string option"
  groupCategoryId :: "string option"

definition parsedCard ::
  "string list \<Rightarrow> string \<Rightarrow> string option \<Rightarrow> bool \<Rightarrow> assignee_option list \<Rightarrow> props" where
  \<comment> \<open>Lines 1011-1039: the first assignee that is not disabled, as the object given to
      \<open>onAssigneesChange\<close>; \<open>{}\<close> when there is none.\<close>
  "parsedCard disabledOptionIds everyoneOptionId defSectionId hasModuleOverrides assignees =
     (case filter (\<lambda>assignee. option_id assignee \<notin> set disabledOptionIds) assignees of
        [] \<Rightarrow> []
      | newSelectedOption # _ \<Rightarrow>
          (let idData = split_dash (option_id newSelectedOption);
               isEveryoneOption = (option_id newSelectedOption = everyoneOptionId);
               parsedId = (if isEveryoneOption then defSectionId else nth_opt idData 1);
               parsed = [(''id'', parsedId), (''name'', option_value newSelectedOption)]
           in if option_id newSelectedOption = everyoneOptionId then
                (if hasModuleOverrides then obj_set parsed ''course_id'' (Some ''everyone'')
                 else obj_set parsed ''course_section_id'' defSectionId)
              else if truthy parsedId \<and> nth_opt idData 0 = Some ''section'' then
                obj_set parsed ''course_section_id'' (nth_opt idData 1)
              else if truthy parsedId \<and> nth_opt idData 0 = Some ''student'' then
                obj_set parsed ''short_name'' (option_value newSelectedOption)
              else if truthy parsedId \<and> nth_opt idData 0 = Some ''group'' then
                obj_set (obj_set parsed ''group_id'' (nth_opt idData 1))
                  ''group_category_id'' (groupCategoryId newSelectedOption)
              else if nth_opt idData 0 = Some ''mastery_paths'' then
                obj_set parsed ''noop_id'' (Some ''1'')
              else parsed))"

definition parsedDeletedCard ::
  "assignee_option list \<Rightarrow> string \<Rightarrow> string option \<Rightarrow> string list \<Rightarrow> props list" where
  \<comment> \<open>Lines 1041-1059.\<close>
  "parsedDeletedCard allOptions everyoneOptionId defSectionId deletedAssignees =
     map (\<lambda>i.
            (let found = find (\<lambda>a. option_id a = i) allOptions;
                 data = (case found of None \<Rightarrow> None | Some a \<Rightarrow> Some (split_dash (option_id a)));
                 data0 = (case data of None \<Rightarrow> None | Some d \<Rightarrow> nth_opt d 0);
                 data1 = (case data of None \<Rightarrow> None | Some d \<Rightarrow> nth_opt d 1);
                 val = (case found of None \<Rightarrow> None | Some a \<Rightarrow> option_value a);
                 deleted = [(''name'', val), (''type'', data0)]
             in if i = everyoneOptionId then obj_set deleted ''course_section_id'' defSectionId
                else if data0 = Some ''section'' then obj_set deleted ''course_section_id'' data1
                else if data0 = Some ''student'' then
                  obj_set (obj_set deleted ''short_name'' val) ''student_id'' data1
                else if data0 = Some ''group'' then obj_set deleted ''group_id'' data1
                else if data0 = Some ''mastery_paths'' then obj_set deleted ''noop_id'' (Some ''1'')
                else deleted))
       deletedAssignees"

definition handleCustomAssigneesChange ::
  "string list \<Rightarrow> string \<Rightarrow> string option \<Rightarrow> bool \<Rightarrow> assignee_option list \<Rightarrow>
   assignee_option list \<Rightarrow> string list \<Rightarrow> props \<times> props list" where
  \<comment> \<open>Lines 1009-1061: the second and third argument of the call of \<open>onAssigneesChange\<close>.\<close>
  "handleCustomAssigneesChange disabledOptionIds everyoneOptionId defSectionId hasModuleOverrides
       allOptions assignees deletedAssignees =
     (parsedCard disabledOptionIds everyoneOptionId defSectionId hasModuleOverrides assignees,
      parsedDeletedCard allOptions everyoneOptionId defSectionId deletedAssignees)"

section \<open>ItemAssignToTrayContent: the paginated fetch\<close>

record json_response =
  overrides :: "override list option"
  blueprint_date_locks :: "string list option"
  visible_to_everyone :: "bool option"
  group_category_id :: "string option"
  item_id :: "string option"
  base_dates :: "date_field \<Rightarrow> dateval"

record response =
  json :: json_response
  next_url :: "string option"

record fetch_args =
  path :: "string option"
  per_page :: "nat option"

datatype event =
    SetFetchInFlight bool
  | DoFetchApi fetch_args
  | ShowFlashError
  | HandleDismiss
  | SetHasFetched bool
  | SetInitialLoadRef bool
  | SetModuleAssignees "string list"
  | SetHasModuleOverrides bool
  | SetGroupCategoryId "string option"
  | SetOverridesFetched bool
  | SetBlueprintDateLocks "string list option"
  | SetDisabledOptionIdsRef "string list"
  | SetInitialCards "card_spec list"
  | OnInitialStateSet "card_spec list"
  | SetAssignToCards "card_spec list"

definition MAX_PAGES :: nat where
  "MAX_PAGES = 10"

definition empty_json :: json_response where
  "empty_json =
     \<lparr>overrides = None, blueprint_date_locks = None, visible_to_everyone = None,
      group_category_id = None, item_id = None, base_dates = (\<lambda>_. Undefined)\<rparr>"

function fetchLoop ::
  "(fetch_args \<Rightarrow> js_error + response) \<Rightarrow> string option \<Rightarrow> fetch_args \<Rightarrow> nat \<Rightarrow>
   json_response list \<Rightarrow> event list \<Rightarrow> event list \<times> (js_error + json_response list)" where
  \<comment> \<open>The \<open>while\<close> loop of lines 810-819 (and 695-704). \<open>doFetchApi\<close> is the request: the
      response, or the failure it throws. The result is the requests made, in order, and
      \<open>allResponses\<close> or the failure.\<close>
  "fetchLoop doFetchApi url args pageCount allResponses reqs =
     (if truthy url \<and> pageCount < MAX_PAGES then
        (case doFetchApi args of
           Inl e \<Rightarrow> (reqs @ [DoFetchApi args], Inl e)
         | Inr resp \<Rightarrow>
             (let url' = (if truthy (next_url resp) then next_url resp else None)
              in fetchLoop doFetchApi url' \<lparr>path = url', per_page = None\<rparr> (Suc pageCount)
                   (allResponses @ [json resp]) (reqs @ [DoFetchApi args])))
      else (reqs, Inr allResponses))"
  by pat_completeness auto
termination
  by (relation "measure (\<lambda>(doFetchApi, url, args, pageCount, allResponses, reqs).
                           MAX_PAGES - pageCount)") auto

definition or_empty :: "'a list option \<Rightarrow> 'a list" where
  \<comment> \<open>\<open>xs || []\<close>\<close>
  "or_empty xs = (case xs of None \<Rightarrow> [] | Some l \<Rightarrow> l)"

definition combineResponses :: "json_response \<Rightarrow> json_response \<Rightarrow> json_response" where
  \<comment> \<open>The reducer of lines 822-829.\<close>
  "combineResponses acc resp =
     resp\<lparr>overrides := Some (or_empty (overrides acc) @ or_empty (overrides resp)),
          blueprint_date_locks :=
            Some (or_empty (blueprint_date_locks acc) @ or_empty (blueprint_date_locks resp))\<rparr>"

definition combineLocks :: "json_response \<Rightarrow> json_response \<Rightarrow> json_response" where
  \<comment> \<open>The reducer of lines 707-712, which keeps the date locks only.\<close>
  "combineLocks acc resp =
     empty_json\<lparr>blueprint_date_locks :=
                  Some (or_empty (blueprint_date_locks acc) @ or_empty (blueprint_date_locks resp))\<rparr>"

record overridden_targets =
  target_sections :: "string list option"
  target_students :: "string list option"

record derived =
  derived_cards :: "card_spec list"
  derived_selectedOptionIds :: "string list"
  derived_allModuleAssignees :: "string list"
  derived_cardIds :: nat

definition studentsOverridden :: "overridden_targets option \<Rightarrow> string option \<Rightarrow> bool" where
  \<comment> \<open>\<open>overriddenTargets?.students?.includes(id)\<close>, falsy when a link of the chain is
      undefined.\<close>
  "studentsOverridden targets i =
     (case targets of None \<Rightarrow> False
      | Some t \<Rightarrow> (case target_students t of None \<Rightarrow> False | Some l \<Rightarrow> array_includes l i))"

definition sectionsOverridden :: "overridden_targets option \<Rightarrow> string option \<Rightarrow> bool" where
  "sectionsOverridden targets i =
     (case targets of None \<Rightarrow> False
      | Some t \<Rightarrow> (case target_sections t of None \<Rightarrow> False | Some l \<Rightarrow> array_includes l i))"

definition overrideCard :: "string \<Rightarrow> string list \<Rightarrow> override \<Rightarrow> card_spec" where
  \<comment> \<open>The card of lines 912-927.\<close>
  "overrideCard cardId defaultOpts ov =
     \<lparr>key = cardId, isValid = True, highlightCard = None, hasAssignees = True,
      card_date = (\<lambda>f. case f of DueAt \<Rightarrow> dates ov DueAt | UnlockAt \<Rightarrow> dates ov UnlockAt
                        | LockAt \<Rightarrow> dates ov LockAt | _ \<Rightarrow> Null),
      original_due_at = dates ov DueAt,
      selectedAssigneeIds = defaultOpts, defaultOptions = Some defaultOpts,
      overrideId = override_id ov, index = None,
      contextModuleId = context_module_id ov, contextModuleName = context_module_name ov\<rparr>"

definition everyoneCard :: "string \<Rightarrow> string \<Rightarrow> json_response \<Rightarrow> card_spec" where
  \<comment> \<open>The card of lines 849-861.\<close>
  "everyoneCard cardId everyoneOptionId baseDates =
     \<lparr>key = cardId, isValid = True, highlightCard = None, hasAssignees = True,
      card_date = (\<lambda>f. case f of DueAt \<Rightarrow> base_dates baseDates DueAt
                        | UnlockAt \<Rightarrow> base_dates baseDates UnlockAt
                        | LockAt \<Rightarrow> base_dates baseDates LockAt | _ \<Rightarrow> Null),
      original_due_at = base_dates baseDates DueAt,
      selectedAssigneeIds = [everyoneOptionId], defaultOptions = None,
      overrideId = item_id baseDates, index = None,
      contextModuleId = None, contextModuleName = None\<rparr>"

definition overrideStep ::
  "(nat \<Rightarrow> string) \<Rightarrow> overridden_targets option \<Rightarrow> derived \<Rightarrow> override \<Rightarrow> derived" where
  \<comment> \<open>One round of the \<open>forEach\<close> of lines 865-929.\<close>
  "overrideStep makeCardId overriddenTargets st ov =
     (if unassign_item ov = Some True then st
      else
        (let isModule = truthy (context_module_id ov);
             st1 = (if isModule then
                      st\<lparr>derived_allModuleAssignees :=
                            derived_allModuleAssignees st
                            @ (if truthy (course_section_id ov)
                               then [''section-'' @ template (course_section_id ov)] else [])
                            @ studentOptions ov\<rparr>
                    else st);
             filteredStudents =
               (if isModule \<and> student_ids ov \<noteq> None
                then map_option (filter (\<lambda>i. \<not> studentsOverridden overriddenTargets i))
                       (student_ids ov)
                else student_ids ov);
             removeCard0 =
               (isModule \<and> student_ids ov \<noteq> None \<and>
                length (or_empty (student_ids ov)) > 0 \<and> length (or_empty filteredStudents) = 0);
             defaultOpts =
               map (\<lambda>i. ''student-'' @ template i) (or_empty filteredStudents)
               @ (if truthy (noop_id ov) then [''mastery_paths''] else [])
               @ (if truthy (course_section_id ov)
                  then [''section-'' @ template (course_section_id ov)] else [])
               @ (if truthy (course_id ov) then [''everyone''] else [])
               @ (if truthy (group_id ov) then [''group-'' @ template (group_id ov)] else []);
             removeCard = (removeCard0 \<or> student_ids ov = Some [])
         in if removeCard \<or>
               (isModule \<and> truthy (course_section_id ov) \<and>
                sectionsOverridden overriddenTargets (course_section_id ov))
            then st1
            else st1\<lparr>derived_cards :=
                       derived_cards st1
                       @ [overrideCard (makeCardId (derived_cardIds st1)) defaultOpts ov],
                     derived_selectedOptionIds := derived_selectedOptionIds st1 @ defaultOpts,
                     derived_cardIds := Suc (derived_cardIds st1)\<rparr>))"

definition deriveCards ::
  "(nat \<Rightarrow> string) \<Rightarrow> (override list option \<Rightarrow> overridden_targets option) \<Rightarrow> string \<Rightarrow>
   json_response \<Rightarrow> derived" where
  \<comment> \<open>Lines 833-930. \<open>makeCardId\<close> gives the ids of the successive calls of \<open>uid\<close>;
      \<open>getOverriddenAssignees\<close> is imported from a file that is not part of the sources;
      \<open>everyoneOptionId\<close> is \<open>getEveryoneOption(assignToCards.length > 1).id\<close>.\<close>
  "deriveCards makeCardId getOverriddenAssignees everyoneOptionId combinedResponse =
     (let overriddenTargets = getOverriddenAssignees (overrides combinedResponse);
          onlyOverrides = (visible_to_everyone combinedResponse \<noteq> Some True);
          hasCourseOverride =
            list_ex (\<lambda>ov. truthy (course_id ov)) (or_empty (overrides combinedResponse));
          st0 = (if \<not> onlyOverrides \<and> \<not> hasCourseOverride
                 then \<lparr>derived_cards =
                         [everyoneCard (makeCardId 0) everyoneOptionId combinedResponse],
                       derived_selectedOptionIds = [everyoneOptionId],
                       derived_allModuleAssignees = [], derived_cardIds = 1\<rparr>
                 else \<lparr>derived_cards = [], derived_selectedOptionIds = [],
                       derived_allModuleAssignees = [], derived_cardIds = 0\<rparr>)
      in foldl (overrideStep makeCardId overriddenTargets) st0
           (or_empty (overrides combinedResponse)))"

definition completion :: "event list" where
  \<comment> \<open>The \<open>finally\<close> block of lines 943-947 (and 719-723).\<close>
  "completion = [SetHasFetched True, SetFetchInFlight False, SetInitialLoadRef True]"

definition fetchAllPages ::
  "(fetch_args \<Rightarrow> js_error + response) \<Rightarrow> (nat \<Rightarrow> string) \<Rightarrow>
   (override list option \<Rightarrow> overridden_targets option) \<Rightarrow> string \<Rightarrow> bool \<Rightarrow> string option \<Rightarrow>
   event list" where
  \<comment> \<open>\<open>fetchAllPages\<close> of lines 799-948, as the calls it makes in order. \<open>url\<close> is the result
      of \<open>itemTypeToApiURL\<close>; \<open>onInitialStateSet\<close> tells whether that optional callback is
      given.\<close>
  "fetchAllPages doFetchApi makeCardId getOverriddenAssignees everyoneOptionId onInitialStateSet url =
     (case fetchLoop doFetchApi url \<lparr>path = url, per_page = Some 100\<rparr> 0 [] [] of
        (reqs, Inl e) \<Rightarrow> [SetFetchInFlight True] @ reqs @ [ShowFlashError, HandleDismiss] @ completion
      | (reqs, Inr allResponses) \<Rightarrow>
          (let combinedResponse = foldl combineResponses empty_json allResponses;
               d = deriveCards makeCardId getOverriddenAssignees everyoneOptionId combinedResponse;
               hasModuleOverride =
                 list_ex (\<lambda>ov. truthy (context_module_id ov)) (or_empty (overrides combinedResponse))
           in [SetFetchInFlight True] @ reqs
              @ [SetModuleAssignees (derived_allModuleAssignees d),
                 SetHasModuleOverrides hasModuleOverride,
                 SetGroupCategoryId (group_category_id combinedResponse),
                 SetOverridesFetched True,
                 SetBlueprintDateLocks (blueprint_date_locks combinedResponse),
                 SetDisabledOptionIdsRef (derived_selectedOptionIds d),
                 SetInitialCards (derived_cards d)]
              @ (if onInitialStateSet then [OnInitialStateSet (derived_cards d)] else [])
              @ [SetAssignToCards (derived_cards d)]
              @ completion))"

definition fetchBlueprintLocks ::
  "(fetch_args \<Rightarrow> js_error + response) \<Rightarrow> string option \<Rightarrow> event list" where
  \<comment> \<open>\<open>fetchAllPages\<close> of lines 685-724, which loads the blueprint date locks only.\<close>
  "fetchBlueprintLocks doFetchApi url =
     (case fetchLoop doFetchApi url \<lparr>path = url, per_page = Some 100\<rparr> 0 [] [] of
        (reqs, Inl e) \<Rightarrow> [SetFetchInFlight True] @ reqs @ [ShowFlashError, HandleDismiss] @ completion
      | (reqs, Inr allResponses) \<Rightarrow>
          [SetFetchInFlight True] @ reqs
          @ [SetBlueprintDateLocks (blueprint_date_locks (foldl combineLocks empty_json allResponses))]
          @ completion)"

section \<open>Section and student assignees\<close>

text \<open>
  The module-assignee list holds section and student assignees as tagged strings,
  \<open>section-<id>\<close> and \<open>student-<id>\<close>. The ids in them are those of the backend: decimal
  numerals.
\<close>

datatype assignee = Section string | Student string

fun optionId :: "assignee \<Rightarrow> string" where
  "optionId (Section i) = ''section-'' @ i"
| "optionId (Student i) = ''student-'' @ i"

fun assigneeId :: "assignee \<Rightarrow> string" where
  "assigneeId (Section i) = i"
| "assigneeId (Student i) = i"

fun isStudent :: "assignee \<Rightarrow> bool" where
  "isStudent (Student i) = True"
| "isStudent (Section i) = False"

definition numeric_id :: "string \<Rightarrow> bool" where
  "numeric_id s = list_all is_digit s"

section \<open>A chain of pages\<close>

text \<open>
  A list of pages, each with the url that serves it, describes a backend that answers the
  request for page \<open>i\<close> with that page and a link to the next one. Only the first request
  carries \<open>per_page\<close>.
\<close>

definition pageRequest :: "(string \<times> json_response) list \<Rightarrow> nat \<Rightarrow> fetch_args" where
  "pageRequest pages i =
     \<lparr>path = (if i < length pages then Some (fst (pages ! i)) else None),
      per_page = (if i = 0 then Some 100 else None)\<rparr>"

definition pageResponse :: "(string \<times> json_response) list \<Rightarrow> nat \<Rightarrow> response" where
  "pageResponse pages i =
     \<lparr>json = snd (pages ! i),
      next_url = (if Suc i < length pages then Some (fst (pages ! Suc i)) else None)\<rparr>"

fun isRequest :: "event \<Rightarrow> bool" where
  "isRequest (DoFetchApi a) = True"
| "isRequest _ = False"

fun requestsOf :: "event list \<Rightarrow> fetch_args list" where
  "requestsOf [] = []"
| "requestsOf (DoFetchApi a # es) = a # requestsOf es"
| "requestsOf (e # es) = requestsOf es"

section \<open>Which overrides get an initial card\<close>

text \<open>
  The description of the card derivation in words: an override is an unassign marker; a
  module override is superseded when all its students (at least one) or its section are among
  the overridden targets; an override is shown as a card when it is neither, and its list
  of students is not empty.
\<close>

definition supersededModuleOverride :: "overridden_targets option \<Rightarrow> override \<Rightarrow> bool" where
  "supersededModuleOverride targets ov =
     (truthy (context_module_id ov) \<and>
      ((case student_ids ov of
          None \<Rightarrow> False
        | Some ids \<Rightarrow> ids \<noteq> [] \<and> list_all (studentsOverridden targets) ids) \<or>
       (truthy (course_section_id ov) \<and> sectionsOverridden targets (course_section_id ov))))"

definition showsCard :: "overridden_targets option \<Rightarrow> override \<Rightarrow> bool" where
  "showsCard targets ov =
     (unassign_item ov \<noteq> Some True \<and> \<not> supersededModuleOverride targets ov \<and>
      student_ids ov \<noteq> Some [])"

definition cardOptions :: "overridden_targets option \<Rightarrow> override \<Rightarrow> string list" where
  \<comment> \<open>The options of the card of a shown override: its students, without those a module
      override shares with the overridden targets, then mastery paths, section, course and
      group.\<close>
  "cardOptions overriddenTargets ov =
     map (\<lambda>i. ''student-'' @ template i)
       (filter (\<lambda>i. \<not> (truthy (context_module_id ov) \<and> studentsOverridden overriddenTargets i))
          (or_empty (student_ids ov)))
     @ (if truthy (noop_id ov) then [''mastery_paths''] else [])
     @ (if truthy (course_section_id ov)
        then [''section-'' @ template (course_section_id ov)] else [])
     @ (if truthy (course_id ov) then [''everyone''] else [])
     @ (if truthy (group_id ov) then [''group-'' @ template (group_id ov)] else [])"

definition showsEveryoneCard :: "json_response \<Rightarrow> bool" where
  "showsEveryoneCard resp =
     (visible_to_everyone resp = Some True \<and>
      \<not> list_ex (\<lambda>ov. truthy (course_id ov)) (or_empty (overrides resp)))"

definition overrideOptions :: "projection_env \<Rightarrow> override \<Rightarrow> string list" where
  \<comment> \<open>The options that one round of the \<open>forEach\<close> of lines 211-234 adds to
      \<open>defaultOptions\<close>.\<close>
  "overrideOptions env ov =
     (if noop_id ov = Some ''1'' then [''mastery_paths'']
      else if course_section_id ov = defaultSectionId env then [everyoneOptionKey env]
      else if truthy (course_id ov) then [everyoneOptionKey env]
      else studentOptions ov
           @ (if truthy (course_section_id ov)
              then [''section-'' @ template (course_section_id ov)] else [])
           @ (if truthy (group_id ov) then [''group-'' @ template (group_id ov)] else []))"


section \<open>Properties of the onSync recomputation\<close>

lemma truthy_iff: "truthy v = (v \<noteq> None \<and> v \<noteq> Some [])"
  by (cases v) (simp_all add: truthy_def)

lemma digit_not_dash: "is_digit c \<Longrightarrow> c \<noteq> CHR ''-''"
  by (auto simp: is_digit_def)

lemma digit_not_s: "is_digit c \<Longrightarrow> c \<noteq> CHR ''s''"
  by (auto simp: is_digit_def)

lemma split_dash_digits: "list_all is_digit d \<Longrightarrow> split_dash d = [d]"
  by (induction d) (auto simp: digit_not_dash)

lemma includes_no_s: "list_all is_digit d \<Longrightarrow> \<not> includes_str d (CHR ''s'' # t)"
  by (induction d) (auto simp: digit_not_s)

lemma optionId_includes:
  "numeric_id (assigneeId a) \<Longrightarrow> includes_str (optionId a) ''student'' = isStudent a"
  "numeric_id (assigneeId a) \<Longrightarrow> includes_str (optionId a) ''section'' = (\<not> isStudent a)"
  using includes_no_s[of "assigneeId a"] by (cases a; simp add: numeric_id_def)+

lemma optionId_split: "numeric_id (assigneeId a) \<Longrightarrow> split_dash_1 (optionId a) = Some (assigneeId a)"
  by (cases a) (simp_all add: numeric_id_def split_dash_1_def split_dash_digits)

lemma filter_includes_student:
  "\<forall>a\<in>set mas. numeric_id (assigneeId a) \<Longrightarrow>
   filter_includes ''student'' (map (\<lambda>a. Some (optionId a)) mas) = Inr (map optionId (filter isStudent mas))"
  by (induction mas) (simp_all add: optionId_includes del: optionId.simps)

lemma filter_includes_section:
  "\<forall>a\<in>set mas. numeric_id (assigneeId a) \<Longrightarrow>
   filter_includes ''section'' (map (\<lambda>a. Some (optionId a)) mas) = Inr (map optionId (filter (\<lambda>a. \<not> isStudent a) mas))"
  by (induction mas) (simp_all add: optionId_includes del: optionId.simps)

lemma filter_None: "None \<in> set xs \<Longrightarrow> filter_includes t xs = Inl TypeError"
  by (induction xs) (auto split: option.splits sum.splits)

lemma deleted_map:
  "filter (\<lambda>assignee. \<not> array_includes dis assignee) (map (\<lambda>a. Some (optionId a)) mas)
   = map (\<lambda>a. Some (optionId a)) (filter (\<lambda>a. optionId a \<notin> set dis) mas)"
  by (induction mas) (simp_all add: array_includes_def del: optionId.simps)

lemma map_split_ids:
  "\<forall>a\<in>set mas. numeric_id (assigneeId a) \<Longrightarrow>
   map (\<lambda>a. split_dash_1 (optionId a)) (filter P mas) = map (\<lambda>a. Some (assigneeId a)) (filter P mas)"
  by (induction mas) (simp_all add: optionId_split del: optionId.simps)

lemma pushUnassigned_numeric:
  assumes "\<forall>a\<in>set del. numeric_id (assigneeId a)"
  shows "pushUnassigned new (map (\<lambda>a. Some (optionId a)) del) =
     Inr (new
          @ (if filter isStudent del = [] then []
             else [unassignStudents (map (\<lambda>a. Some (assigneeId a)) (filter isStudent del))])
          @ map (\<lambda>a. unassignSection (Some (assigneeId a))) (filter (\<lambda>a. \<not> isStudent a) del))"
proof (cases "del = []")
  case True
  then show ?thesis by (simp add: pushUnassigned_def)
next
  case False
  then show ?thesis
    using assms
    by (auto simp add: pushUnassigned_def filter_includes_student filter_includes_section
        optionId_split map_split_ids Let_def comp_def simp del: optionId.simps)
qed

text \<open>
  C1. When every entry of the captured module-assignee list is a section or a student
  assignee, the recomputation appends, to the overrides of the cards that have a target,
  one override \<open>{id: undefined, student_ids: [...], unassign_item: true}\<close> that batches all the
  student assignees missing from the disabled options (none when there is no such student),
  and then one override \<open>{id: undefined, course_section_id: <id>, unassign_item: true}\<close> for each
  missing section assignee. This list goes through \<open>processModuleOverridesV2\<close> and
  \<open>resetOverrides\<close> and the outcome is handed to \<open>onSync\<close>; when these two helpers keep the
  overrides marked \<open>unassign_item\<close>, the list that \<open>onSync\<close> receives holds each of the
  synthesized overrides.
\<close>

theorem deleted_module_assignees_unassigned:
  assumes "\<forall>a\<in>set mas. numeric_id (assigneeId a)"
  shows "(let deleted = filter (\<lambda>a. optionId a \<notin> set dis) mas;
              studentIds = map (\<lambda>a. Some (assigneeId a)) (filter isStudent deleted);
              sectionIds = map (\<lambda>a. Some (assigneeId a)) (filter (\<lambda>a. \<not> isStudent a) deleted);
              studentOverride =
                \<lparr>override_id = None, course_section_id = None, student_ids = Some studentIds,
                 students = None, group_id = None, noop_id = None, course_id = None,
                 context_module_id = None, context_module_name = None,
                 unassign_item = Some True, stagedOverrideId = None, rowKey = None,
                 dates = (\<lambda>_. Undefined), overridden = (\<lambda>_. None)\<rparr>;
              sectionOverride =
                (\<lambda>sec. \<lparr>override_id = None, course_section_id = sec, student_ids = None,
                        students = None, group_id = None, noop_id = None, course_id = None,
                        context_module_id = None, context_module_name = None,
                        unassign_item = Some True, stagedOverrideId = None, rowKey = None,
                        dates = (\<lambda>_. Undefined), overridden = (\<lambda>_. None)\<rparr>);
              present = (\<lambda>v :: string option. v \<noteq> None \<and> v \<noteq> Some []);
              xs = filter (\<lambda>ov. present (course_section_id ov) \<or> student_ids ov \<noteq> None \<or>
                                present (noop_id ov) \<or> present (course_id ov) \<or>
                                present (group_id ov)) cardOverrides
                   @ (if studentIds = [] then [] else [studentOverride])
                   @ map sectionOverride sectionIds;
              emitted = reset xs (pmo xs init)
          in syncOverrides pmo reset cardOverrides (map (\<lambda>a. Some (optionId a)) mas) dis init
             = Inr emitted \<and>
             ((\<forall>ys. \<forall>ov\<in>set ys. unassign_item ov = Some True \<longrightarrow>
                      ov \<in> set (reset ys (pmo ys init))) \<longrightarrow>
                (studentIds \<noteq> [] \<longrightarrow> studentOverride \<in> set emitted) \<and>
                (\<forall>sec\<in>set sectionIds. sectionOverride sec \<in> set emitted)))"
proof -
  let ?deleted = "filter (\<lambda>a. optionId a \<notin> set dis) mas"
  have n: "\<forall>a\<in>set ?deleted. numeric_id (assigneeId a)"
    using assms by simp
  have h: "filter hasTarget cardOverrides =
      filter (\<lambda>ov. (course_section_id ov \<noteq> None \<and> course_section_id ov \<noteq> Some []) \<or>
                    student_ids ov \<noteq> None \<or>
                    (noop_id ov \<noteq> None \<and> noop_id ov \<noteq> Some []) \<or>
                    (course_id ov \<noteq> None \<and> course_id ov \<noteq> Some []) \<or>
                    (group_id ov \<noteq> None \<and> group_id ov \<noteq> Some [])) cardOverrides"
    by (rule filter_cong) (auto simp: hasTarget_def truthy_iff)
  have e: "syncOverrides pmo reset cardOverrides (map (\<lambda>a. Some (optionId a)) mas) dis init =
     (let xs = filter hasTarget cardOverrides
               @ (if filter isStudent ?deleted = [] then []
                  else [unassignStudents (map (\<lambda>a. Some (assigneeId a)) (filter isStudent ?deleted))])
               @ map (\<lambda>a. unassignSection (Some (assigneeId a))) (filter (\<lambda>a. \<not> isStudent a) ?deleted)
      in Inr (reset xs (pmo xs init)))"
    using pushUnassigned_numeric[OF n]
    by (simp add: syncOverrides_def deleted_map Let_def del: optionId.simps)
  show ?thesis
    unfolding Let_def e[unfolded Let_def] h
    by (auto simp: unassignStudents_def unassignSection_def empty_override_def comp_def)
qed

theorem deleted_module_assignees_unassigned_witness:
  "syncOverrides (\<lambda>new init. new) (\<lambda>new without. without)
     [empty_override\<lparr>group_id := Some ''4''\<rparr>, empty_override\<lparr>override_id := Some ''8''\<rparr>]
     (allModuleAssignees
        [empty_override\<lparr>course_section_id := Some ''7'', context_module_id := Some ''3''\<rparr>,
         empty_override\<lparr>student_ids := Some [Some ''5'', Some ''6''],
                        context_module_id := Some ''3''\<rparr>])
     [''student-5''] []
   = Inr [\<lparr>override_id = None, course_section_id = None, student_ids = None,
           students = None, group_id = Some ''4'', noop_id = None, course_id = None,
           context_module_id = None, context_module_name = None,
           unassign_item = None, stagedOverrideId = None, rowKey = None,
           dates = (\<lambda>_. Undefined), overridden = (\<lambda>_. None)\<rparr>,
          \<lparr>override_id = None, course_section_id = None, student_ids = Some [Some ''6''],
           students = None, group_id = None, noop_id = None, course_id = None,
           context_module_id = None, context_module_name = None,
           unassign_item = Some True, stagedOverrideId = None, rowKey = None,
           dates = (\<lambda>_. Undefined), overridden = (\<lambda>_. None)\<rparr>,
          \<lparr>override_id = None, course_section_id = Some ''7'', student_ids = None,
           students = None, group_id = None, noop_id = None, course_id = None,
           context_module_id = None, context_module_name = None,
           unassign_item = Some True, stagedOverrideId = None, rowKey = None,
           dates = (\<lambda>_. Undefined), overridden = (\<lambda>_. None)\<rparr>]"
proof -
  let ?mas = "[Section ''7'', Student ''5'', Student ''6'']"
  let ?pmo = "\<lambda>(new :: override list) (init :: override list). new"
  let ?reset = "\<lambda>(new :: override list) (without :: override list). without"
  have m: "allModuleAssignees
        [empty_override\<lparr>course_section_id := Some ''7'', context_module_id := Some ''3''\<rparr>,
         empty_override\<lparr>student_ids := Some [Some ''5'', Some ''6''],
                        context_module_id := Some ''3''\<rparr>]
      = map (\<lambda>a. Some (optionId a)) ?mas"
    by (simp add: allModuleAssignees_def moduleAssigneeOf_def truthy_def template_def
        empty_override_def)
  have h: "\<forall>a\<in>set ?mas. numeric_id (assigneeId a)"
    by (simp add: numeric_id_def is_digit_def)
  have k: "\<forall>ys. \<forall>ov\<in>set ys. unassign_item ov = Some True \<longrightarrow> ov \<in> set (?reset ys (?pmo ys []))"
    by simp
  note t = deleted_module_assignees_unassigned
      [where mas = ?mas and pmo = ?pmo and reset = ?reset
         and cardOverrides = "[empty_override\<lparr>group_id := Some ''4''\<rparr>,
                               empty_override\<lparr>override_id := Some ''8''\<rparr>]"
         and dis = "[''student-5'']" and init = "[]", OF h]
  show ?thesis
    unfolding m using t k by (simp add: Let_def empty_override_def)
qed

text \<open>
  C9. A module override that has neither a section nor a list of students puts
  \<open>undefined\<close> into the module-assignee list. Whatever the disabled options are, the
  recomputation then calls \<open>includes\<close> on \<open>undefined\<close> and throws.
\<close>

theorem untargeted_module_override_throws:
  assumes "ov \<in> set ovs" "truthy (context_module_id ov)" "\<not> truthy (course_section_id ov)" "student_ids ov = None"
  shows "None \<in> set (allModuleAssignees ovs) \<and>
         syncOverrides pmo reset cardOverrides (allModuleAssignees ovs) dis init = Inl TypeError"
proof -
  have m: "None \<in> set (allModuleAssignees ovs)"
    using assms by (auto simp: allModuleAssignees_def moduleAssigneeOf_def intro!: bexI[of _ ov])
  then have d: "None \<in> set (filter (\<lambda>assignee. \<not> array_includes dis assignee) (allModuleAssignees ovs))"
    by (simp add: array_includes_def)
  then have "pushUnassigned new (filter (\<lambda>assignee. \<not> array_includes dis assignee) (allModuleAssignees ovs)) = Inl TypeError" for new
    using filter_None[OF d] by (auto simp: pushUnassigned_def)
  then show ?thesis using m by (simp add: syncOverrides_def)
qed

theorem untargeted_module_override_throws_witness:
  "None \<in> set (allModuleAssignees
                 [empty_override\<lparr>group_id := Some ''5'', context_module_id := Some ''3''\<rparr>]) \<and>
   syncOverrides (\<lambda>new init. new) (\<lambda>new without. without) []
     (allModuleAssignees [empty_override\<lparr>group_id := Some ''5'', context_module_id := Some ''3''\<rparr>])
     [''group-5''] []
   = Inl TypeError"
proof -
  let ?g = "empty_override\<lparr>group_id := Some ''5'', context_module_id := Some ''3''\<rparr>"
  have h: "?g \<in> set [?g]" "truthy (context_module_id ?g)" "\<not> truthy (course_section_id ?g)"
    "student_ids ?g = None"
    by (simp_all add: truthy_def empty_override_def)
  show ?thesis
    using untargeted_module_override_throws
      [where ov = ?g and ovs = "[?g]" and pmo = "\<lambda>new init. new"
         and reset = "\<lambda>new without. without" and cardOverrides = "[]"
         and dis = "[''group-5'']" and init = "[]", OF h]
    by simp
qed

section \<open>Properties of the staged correlation ids\<close>

lemma tag_length: "length (fst (tagOverrides uid n ovs)) = length ovs"
  by (induction ovs arbitrary: n) (auto simp: Let_def split_def)

lemma tag_all_tagged:
  "\<forall>k. uid k \<noteq> [] \<Longrightarrow> list_all (\<lambda>ov. truthy (stagedOverrideId ov)) (fst (tagOverrides uid n ovs))"
  by (induction ovs arbitrary: n) (auto simp: Let_def split_def truthy_def)

lemma tag_tagged_id:
  "list_all (\<lambda>ov. truthy (stagedOverrideId ov)) ovs \<Longrightarrow> tagOverrides uid n ovs = (ovs, n)"
  by (induction ovs arbitrary: n) (auto simp: Let_def)

lemma tag_unchanged:
  "i < length ovs \<Longrightarrow> truthy (stagedOverrideId (ovs ! i)) \<Longrightarrow>
   fst (tagOverrides uid n ovs) ! i = ovs ! i"
proof (induction ovs arbitrary: n i)
  case Nil then show ?case by simp
next
  case (Cons a ovs)
  then show ?case by (cases i) (simp_all add: Let_def split_def)
qed

lemma tag_only_id:
  "i < length ovs \<Longrightarrow>
   (fst (tagOverrides uid n ovs) ! i)\<lparr>stagedOverrideId := v\<rparr> = (ovs ! i)\<lparr>stagedOverrideId := v\<rparr>"
proof (induction ovs arbitrary: n i)
  case Nil then show ?case by simp
next
  case (Cons a ovs)
  then show ?case by (cases i) (simp_all add: Let_def split_def)
qed

lemma tag_ids:
  assumes "inj uid" "\<forall>k. Some (uid k) \<notin> stagedOverrideId ` set ovs"
    "distinct (filter truthy (map stagedOverrideId ovs))"
  shows "distinct (map stagedOverrideId (fst (tagOverrides uid n ovs))) \<and>
         stagedOverrideId ` set (fst (tagOverrides uid n ovs))
           \<subseteq> {v \<in> stagedOverrideId ` set ovs. truthy v} \<union> {Some (uid k) | k. n \<le> k}"
  using assms
proof (induction ovs arbitrary: n)
  case Nil then show ?case by simp
next
  case (Cons a ovs)
  have p: "\<forall>k. Some (uid k) \<notin> stagedOverrideId ` set ovs"
    "distinct (filter truthy (map stagedOverrideId ovs))"
    using Cons.prems by (auto split: if_splits)
  show ?case
  proof (cases "truthy (stagedOverrideId a)")
    case True
    have ih: "distinct (map stagedOverrideId (fst (tagOverrides uid n ovs)))"
      "stagedOverrideId ` set (fst (tagOverrides uid n ovs))
           \<subseteq> {v \<in> stagedOverrideId ` set ovs. truthy v} \<union> {Some (uid k) | k. n \<le> k}"
      using Cons.IH[OF Cons.prems(1) p, of n] by auto
    have a1: "stagedOverrideId a \<notin> {v \<in> stagedOverrideId ` set ovs. truthy v}"
      using Cons.prems(3) True by auto
    have a2: "stagedOverrideId a \<notin> {Some (uid k) | k. n \<le> k}"
      using Cons.prems(2) by auto
    have "stagedOverrideId a \<notin> stagedOverrideId ` set (fst (tagOverrides uid n ovs))"
      using a1 a2 ih(2) by blast
    then show ?thesis using True ih by (auto simp: Let_def split_def)
  next
    case False
    have ih: "distinct (map stagedOverrideId (fst (tagOverrides uid (Suc n) ovs)))"
      "stagedOverrideId ` set (fst (tagOverrides uid (Suc n) ovs))
           \<subseteq> {v \<in> stagedOverrideId ` set ovs. truthy v} \<union> {Some (uid k) | k. Suc n \<le> k}"
      using Cons.IH[OF Cons.prems(1) p, of "Suc n"] by auto
    have a1: "Some (uid n) \<notin> {v \<in> stagedOverrideId ` set ovs. truthy v}"
      using p(1) by auto
    have a2: "Some (uid n) \<notin> {Some (uid k) | k. Suc n \<le> k}"
      using Cons.prems(1) by (auto dest: injD)
    have n: "Some (uid n) \<notin> stagedOverrideId ` set (fst (tagOverrides uid (Suc n) ovs))"
      using a1 a2 ih(2) by blast
    have sub: "{Some (uid k) | k. Suc n \<le> k} \<subseteq> {Some (uid k) | k. n \<le> k}"
      by (auto intro: Suc_leD)
    show ?thesis using False ih n sub
      by (auto simp: Let_def split_def)
  qed
qed

lemma findIndex_Some:
  "\<exists>x\<in>set xs. p x \<Longrightarrow> \<exists>i. findIndex p xs = Some i \<and> i < length xs \<and> p (xs ! i) \<and> (\<forall>j<i. \<not> p (xs ! j))"
proof (induction xs)
  case Nil then show ?case by simp
next
  case (Cons a xs)
  show ?case
  proof (cases "p a")
    case True then show ?thesis by simp
  next
    case False
    then obtain i where i: "findIndex p xs = Some i" "i < length xs" "p (xs ! i)" "\<forall>j<i. \<not> p (xs ! j)"
      using Cons by auto
    then show ?thesis using False by (auto simp: less_Suc_eq_0_disj)
  qed
qed

lemma findIndex_None: "\<forall>x\<in>set xs. \<not> p x \<Longrightarrow> findIndex p xs = None"
  by (induction xs) auto

lemma map_update_same: "i < length xs \<Longrightarrow> f (xs ! i) = f y \<Longrightarrow> map f (xs[i := y]) = map f xs"
  by (simp add: map_update list_update_same_conv)

lemma tag_has_id:
  "list_all (\<lambda>ov. stagedOverrideId ov \<noteq> None) (fst (tagOverrides uid n ovs))"
  by (induction ovs arbitrary: n) (auto simp: Let_def split_def truthy_def split: option.splits)

lemma addition_replaces_first:
  assumes c: "map_of (stagedCards st) (key_string cardId) = Some c"
    and news: "handleAssigneeAdd newAssignee (card_overrides c) cardId (card_dates c) = news"
      "news \<noteq> []" "truthy (stagedOverrideId (last news))"
    and present: "stagedOverrideId (last news) \<in> stagedOverrideId ` set (stagedOverrides st)"
  shows "\<exists>i<length (stagedOverrides st).
           stagedOverrideId (stagedOverrides st ! i) = stagedOverrideId (last news) \<and>
           (\<forall>j<i. stagedOverrideId (stagedOverrides st ! j) \<noteq> stagedOverrideId (last news)) \<and>
           handleAssigneeAddition uid handleAssigneeAdd st cardId newAssignee =
             Inr (st\<lparr>stagedOverrides := (stagedOverrides st)[i := last news]\<rparr>)"
proof -
  have "\<exists>x\<in>set (stagedOverrides st). stagedOverrideId x = stagedOverrideId (last news)"
    using present by auto
  from findIndex_Some[of "stagedOverrides st" "\<lambda>ov. stagedOverrideId ov = stagedOverrideId (last news)", OF this]
  obtain i where i: "findIndex (\<lambda>ov. stagedOverrideId ov = stagedOverrideId (last news)) (stagedOverrides st) = Some i"
    "i < length (stagedOverrides st)" "stagedOverrideId (stagedOverrides st ! i) = stagedOverrideId (last news)"
    "\<forall>j<i. stagedOverrideId (stagedOverrides st ! j) \<noteq> stagedOverrideId (last news)"
    by blast
  have "handleAssigneeAddition uid handleAssigneeAdd st cardId newAssignee =
             Inr (st\<lparr>stagedOverrides := (stagedOverrides st)[i := last news]\<rparr>)"
    using c news i(1) by (simp add: handleAssigneeAddition_def Let_def)
  then show ?thesis using i(2,3,4) by blast
qed

lemma addition_appends:
  assumes c: "map_of (stagedCards st) (key_string cardId) = Some c"
    and news: "handleAssigneeAdd newAssignee (card_overrides c) cardId (card_dates c) = news"
      "news \<noteq> []" "truthy (stagedOverrideId (last news))"
    and absent: "stagedOverrideId (last news) \<notin> stagedOverrideId ` set (stagedOverrides st)"
  shows "handleAssigneeAddition uid handleAssigneeAdd st cardId newAssignee =
             Inr (st\<lparr>stagedOverrides := stagedOverrides st @ [last news]\<rparr>)"
proof -
  have "findIndex (\<lambda>ov. stagedOverrideId ov = stagedOverrideId (last news)) (stagedOverrides st) = None"
    using absent by (intro findIndex_None) (metis imageI)
  then show ?thesis using c news by (simp add: handleAssigneeAddition_def Let_def)
qed

text \<open>
  C3, as amended. For every list of overrides, tagging gives every override a staged
  correlation id, leaves the tagged overrides as they are and changes nothing but the id of
  the others. When \<open>uid\<close> returns non-empty strings the ids are truthy and tagging the staged
  list again changes nothing. The ids of the staged list are pairwise distinct when the ids
  that the input already carries are, and the generated ids are pairwise distinct and not
  carried by the input. Adding an assignee whose override carries an id of the staged list
  replaces the first entry with that id, and leaves the list of ids as it is.
\<close>

theorem staged_ids_unique_when_fresh:
  "(let staged = fst (tagOverrides uid n ovs) in
      length staged = length ovs \<and>
      list_all (\<lambda>ov. stagedOverrideId ov \<noteq> None) staged \<and>
      (\<forall>i<length ovs.
         (truthy (stagedOverrideId (ovs ! i)) \<longrightarrow> staged ! i = ovs ! i) \<and>
         (staged ! i)\<lparr>stagedOverrideId := None\<rparr> = (ovs ! i)\<lparr>stagedOverrideId := None\<rparr>) \<and>
      ((\<forall>k. uid k \<noteq> []) \<longrightarrow>
         list_all (\<lambda>ov. truthy (stagedOverrideId ov)) staged \<and>
         tagOverrides uid m staged = (staged, m)) \<and>
      (inj uid \<and> (\<forall>k. Some (uid k) \<notin> stagedOverrideId ` set ovs) \<and>
       distinct (filter truthy (map stagedOverrideId ovs)) \<longrightarrow>
         distinct (map stagedOverrideId staged))) \<and>
   (map_of (stagedCards st) (key_string cardId) = Some c \<and>
    handleAssigneeAdd newAssignee (card_overrides c) cardId (card_dates c) = news \<and>
    news \<noteq> [] \<and> truthy (stagedOverrideId (last news)) \<and>
    stagedOverrideId (last news) \<in> stagedOverrideId ` set (stagedOverrides st) \<longrightarrow>
    (\<exists>i<length (stagedOverrides st).
       stagedOverrideId (stagedOverrides st ! i) = stagedOverrideId (last news) \<and>
       (\<forall>j<i. stagedOverrideId (stagedOverrides st ! j) \<noteq> stagedOverrideId (last news)) \<and>
       handleAssigneeAddition uid handleAssigneeAdd st cardId newAssignee =
         Inr (st\<lparr>stagedOverrides := (stagedOverrides st)[i := last news]\<rparr>) \<and>
       length ((stagedOverrides st)[i := last news]) = length (stagedOverrides st) \<and>
       map stagedOverrideId ((stagedOverrides st)[i := last news]) =
         map stagedOverrideId (stagedOverrides st)))"
proof -
  let ?staged = "fst (tagOverrides uid n ovs)"
  have 1: "length ?staged = length ovs" by (rule tag_length)
  have 2: "list_all (\<lambda>ov. stagedOverrideId ov \<noteq> None) ?staged" by (rule tag_has_id)
  have 3: "\<forall>i<length ovs.
               (truthy (stagedOverrideId (ovs ! i)) \<longrightarrow> ?staged ! i = ovs ! i) \<and>
               (?staged ! i)\<lparr>stagedOverrideId := None\<rparr> = (ovs ! i)\<lparr>stagedOverrideId := None\<rparr>"
    using tag_unchanged tag_only_id by blast
  have 4: "list_all (\<lambda>ov. truthy (stagedOverrideId ov)) ?staged \<and>
         tagOverrides uid m ?staged = (?staged, m)" if "\<forall>k. uid k \<noteq> []"
    using tag_all_tagged[OF that] tag_tagged_id by blast
  have 5: "distinct (map stagedOverrideId ?staged)"
    if "inj uid \<and> (\<forall>k. Some (uid k) \<notin> stagedOverrideId ` set ovs) \<and>
       distinct (filter truthy (map stagedOverrideId ovs))"
    using that tag_ids[of uid ovs n] by blast
  have 6: "\<exists>i<length (stagedOverrides st).
       stagedOverrideId (stagedOverrides st ! i) = stagedOverrideId (last news) \<and>
       (\<forall>j<i. stagedOverrideId (stagedOverrides st ! j) \<noteq> stagedOverrideId (last news)) \<and>
       handleAssigneeAddition uid handleAssigneeAdd st cardId newAssignee =
         Inr (st\<lparr>stagedOverrides := (stagedOverrides st)[i := last news]\<rparr>) \<and>
       length ((stagedOverrides st)[i := last news]) = length (stagedOverrides st) \<and>
       map stagedOverrideId ((stagedOverrides st)[i := last news]) =
         map stagedOverrideId (stagedOverrides st)"
    if h: "map_of (stagedCards st) (key_string cardId) = Some c"
          "handleAssigneeAdd newAssignee (card_overrides c) cardId (card_dates c) = news"
          "news \<noteq> []" "truthy (stagedOverrideId (last news))"
          "stagedOverrideId (last news) \<in> stagedOverrideId ` set (stagedOverrides st)"
  proof -
    from addition_replaces_first[where uid = uid and handleAssigneeAdd = handleAssigneeAdd, OF h]
    obtain i where i: "i < length (stagedOverrides st)"
      "stagedOverrideId (stagedOverrides st ! i) = stagedOverrideId (last news)"
      "\<forall>j<i. stagedOverrideId (stagedOverrides st ! j) \<noteq> stagedOverrideId (last news)"
      "handleAssigneeAddition uid handleAssigneeAdd st cardId newAssignee =
               Inr (st\<lparr>stagedOverrides := (stagedOverrides st)[i := last news]\<rparr>)"
      by blast
    from map_update_same[OF i(1), of stagedOverrideId "last news"] i(2)
    have "map stagedOverrideId ((stagedOverrides st)[i := last news]) =
               map stagedOverrideId (stagedOverrides st)" by simp
    with i show ?thesis by (intro exI[of _ i]) simp
  qed
  show ?thesis
    unfolding Let_def using 1 2 3 4 5 6 by blast
qed

theorem staged_ids_unique_when_fresh_witness:
  "fst (tagOverrides (\<lambda>k. replicate (Suc k) CHR ''u'') 0
       [empty_override\<lparr>course_section_id := Some ''7''\<rparr>,
        empty_override\<lparr>stagedOverrideId := Some ''x'', student_ids := Some [Some ''5'']\<rparr>])
   = [empty_override\<lparr>course_section_id := Some ''7'', stagedOverrideId := Some ''u''\<rparr>,
      empty_override\<lparr>stagedOverrideId := Some ''x'', student_ids := Some [Some ''5'']\<rparr>] \<and>
   distinct (map stagedOverrideId (fst (tagOverrides (\<lambda>k. replicate (Suc k) CHR ''u'') 0
       [empty_override\<lparr>course_section_id := Some ''7''\<rparr>,
        empty_override\<lparr>stagedOverrideId := Some ''x'', student_ids := Some [Some ''5'']\<rparr>]))) \<and>
   handleAssigneeAddition (\<lambda>k. replicate (Suc k) CHR ''u'')
     (\<lambda>a ovs k d. [empty_override\<lparr>stagedOverrideId := Some ''x'',
                                    student_ids := Some [Some ''5'', Some ''6'']\<rparr>])
     \<lparr>stagedCards = [(''0'', \<lparr>card_overrides = None, card_dates = None, card_index = None,
                              card_id = None\<rparr>)],
      stagedOverrides =
        [empty_override\<lparr>course_section_id := Some ''7'', stagedOverrideId := Some ''u''\<rparr>,
         empty_override\<lparr>stagedOverrideId := Some ''x'', student_ids := Some [Some ''5'']\<rparr>],
      uidCount = 1\<rparr>
     (KStr ''0'') ()
   = Inr \<lparr>stagedCards = [(''0'', \<lparr>card_overrides = None, card_dates = None,
                                  card_index = None, card_id = None\<rparr>)],
          stagedOverrides =
            [empty_override\<lparr>course_section_id := Some ''7'', stagedOverrideId := Some ''u''\<rparr>,
             empty_override\<lparr>stagedOverrideId := Some ''x'',
                            student_ids := Some [Some ''5'', Some ''6'']\<rparr>],
          uidCount = 1\<rparr>"
proof -
  let ?uid = "\<lambda>k. replicate (Suc k) CHR ''u''"
  let ?ovs = "[empty_override\<lparr>course_section_id := Some ''7''\<rparr>,
        empty_override\<lparr>stagedOverrideId := Some ''x'', student_ids := Some [Some ''5'']\<rparr>]"
  let ?new = "empty_override\<lparr>stagedOverrideId := Some ''x'',
                                 student_ids := Some [Some ''5'', Some ''6'']\<rparr>"
  let ?c = "\<lparr>card_overrides = None, card_dates = None, card_index = None, card_id = None\<rparr>"
  let ?st = "\<lparr>stagedCards = [(''0'', ?c)],
           stagedOverrides =
             [empty_override\<lparr>course_section_id := Some ''7'', stagedOverrideId := Some ''u''\<rparr>,
              empty_override\<lparr>stagedOverrideId := Some ''x'', student_ids := Some [Some ''5'']\<rparr>],
           uidCount = 1\<rparr>"
  have h1: "\<forall>k. ?uid k \<noteq> []" by simp
  have h2: "inj ?uid"
  proof (rule injI)
    fix a b assume "replicate (Suc a) CHR ''u'' = replicate (Suc b) CHR ''u''"
    then have "length (replicate (Suc a) CHR ''u'') = length (replicate (Suc b) CHR ''u'')"
      by (rule arg_cong)
    then show "a = b" by simp
  qed
  have h3: "\<forall>k. Some (?uid k) \<notin> stagedOverrideId ` set ?ovs"
    by (simp add: empty_override_def)
  have h4: "distinct (filter truthy (map stagedOverrideId ?ovs))"
    by (simp add: truthy_def empty_override_def)
  note t = staged_ids_unique_when_fresh
      [where uid = ?uid and ovs = ?ovs and n = 0 and m = 0 and st = ?st and cardId = "KStr ''0''"
         and c = ?c and handleAssigneeAdd = "\<lambda>a ovs k d. [?new]" and newAssignee = "()"
         and news = "[?new]"]
  have a: "distinct (map stagedOverrideId (fst (tagOverrides ?uid 0 ?ovs)))"
    and idem: "tagOverrides ?uid 0 (fst (tagOverrides ?uid 0 ?ovs)) = (fst (tagOverrides ?uid 0 ?ovs), 0)"
    using t h1 h2 h3 h4 unfolding Let_def by blast+
  have tg: "fst (tagOverrides ?uid 0 ?ovs)
      = [empty_override\<lparr>course_section_id := Some ''7'', stagedOverrideId := Some ''u''\<rparr>,
         empty_override\<lparr>stagedOverrideId := Some ''x'', student_ids := Some [Some ''5'']\<rparr>]"
    by (simp add: truthy_def empty_override_def)
  have b: "map_of (stagedCards ?st) (key_string (KStr ''0'')) = Some ?c \<and>
          (\<lambda>a ovs k d. [?new]) () (card_overrides ?c) (KStr ''0'') (card_dates ?c) = [?new] \<and>
          [?new] \<noteq> [] \<and> truthy (stagedOverrideId (last [?new])) \<and>
          stagedOverrideId (last [?new]) \<in> stagedOverrideId ` set (stagedOverrides ?st)"
    by (simp add: key_string_def truthy_def empty_override_def)
  have "\<exists>i<length (stagedOverrides ?st).
             stagedOverrideId (stagedOverrides ?st ! i) = stagedOverrideId (last [?new]) \<and>
             handleAssigneeAddition ?uid (\<lambda>a ovs k d. [?new]) ?st (KStr ''0'') () =
               Inr (?st\<lparr>stagedOverrides := (stagedOverrides ?st)[i := last [?new]]\<rparr>)"
    using t b by blast
  then obtain i where i: "i < length (stagedOverrides ?st)"
    "stagedOverrideId (stagedOverrides ?st ! i) = stagedOverrideId (last [?new])"
    "handleAssigneeAddition ?uid (\<lambda>a ovs k d. [?new]) ?st (KStr ''0'') () =
               Inr (?st\<lparr>stagedOverrides := (stagedOverrides ?st)[i := last [?new]]\<rparr>)"
    by blast
  from i(1) have "i = 0 \<or> i = 1" by auto
  with i(2) have "i = 1" by (auto simp: empty_override_def)
  with i(3) a tg show ?thesis by simp
qed

text \<open>
  The claim as stated fails: two overrides that arrive with the same staged correlation id
  both pass through the tagging unchanged.
\<close>

theorem duplicate_ids_pass_through:
  "\<not> distinct (map stagedOverrideId (fst (tagOverrides string_of_nat 0
       [empty_override\<lparr>stagedOverrideId := Some ''a'', course_section_id := Some ''1''\<rparr>,
        empty_override\<lparr>stagedOverrideId := Some ''a'', course_section_id := Some ''2''\<rparr>])))"
  by (simp add: truthy_def)

section \<open>Properties of the paginated fetch\<close>

declare fetchLoop.simps [simp del]

lemma fetchLoop_pages:
  assumes urls: "\<forall>i<length pages. fst (pages ! i) \<noteq> []"
    and srv: "\<forall>i<length pages. doFetchApi (pageRequest pages i) = Inr (pageResponse pages i)"
    and m: "m = min (length pages) MAX_PAGES"
  shows "k \<le> m \<Longrightarrow>
     fetchLoop doFetchApi (path (pageRequest pages k)) (pageRequest pages k) k acc reqs =
       (reqs @ map (\<lambda>i. DoFetchApi (pageRequest pages i)) [k..<m],
        Inr (acc @ map snd (drop k (take m pages))))"
proof (induction "m - k" arbitrary: k acc reqs)
  case 0
  then have k: "k = m" by simp
  have "\<not> (truthy (path (pageRequest pages k)) \<and> k < MAX_PAGES)"
    using k m by (auto simp: pageRequest_def truthy_def min_def split: if_splits)
  then have "fetchLoop doFetchApi (path (pageRequest pages k)) (pageRequest pages k) k acc reqs
      = (reqs, Inr acc)"
    by (subst fetchLoop.simps) (simp only: if_False)
  then show ?case using k by simp
next
  case (Suc d)
  then have k: "k < m" by simp
  then have kn: "k < length pages" and kM: "k < MAX_PAGES" using m by simp_all
  have t: "truthy (path (pageRequest pages k))"
    using kn urls by (simp add: pageRequest_def truthy_def)
  have r: "doFetchApi (pageRequest pages k) = Inr (pageResponse pages k)"
    using srv kn by simp
  have nx: "(if truthy (next_url (pageResponse pages k)) then next_url (pageResponse pages k) else None)
        = path (pageRequest pages (Suc k))"
    using urls by (auto simp: pageResponse_def pageRequest_def truthy_def)
  have a: "\<lparr>path = path (pageRequest pages (Suc k)), per_page = None\<rparr> = pageRequest pages (Suc k)"
    by (simp add: pageRequest_def)
  have d: "d = m - Suc k" using Suc(2) by simp
  have ih: "fetchLoop doFetchApi (path (pageRequest pages (Suc k))) (pageRequest pages (Suc k)) (Suc k)
           (acc @ [snd (pages ! k)]) (reqs @ [DoFetchApi (pageRequest pages k)]) =
       ((reqs @ [DoFetchApi (pageRequest pages k)]) @ map (\<lambda>i. DoFetchApi (pageRequest pages i)) [Suc k..<m],
        Inr ((acc @ [snd (pages ! k)]) @ map snd (drop (Suc k) (take m pages))))"
    using Suc(1)[OF d] k by simp
  have u: "[k..<m] = k # [Suc k..<m]" using k by (simp add: upt_conv_Cons)
  have dr: "drop k (take m pages) = pages ! k # drop (Suc k) (take m pages)"
    using k kn m by (simp add: Cons_nth_drop_Suc[symmetric])
  have js: "json (pageResponse pages k) = snd (pages ! k)"
    by (simp add: pageResponse_def)
  have "fetchLoop doFetchApi (path (pageRequest pages k)) (pageRequest pages k) k acc reqs =
      fetchLoop doFetchApi (path (pageRequest pages (Suc k))) (pageRequest pages (Suc k)) (Suc k)
           (acc @ [snd (pages ! k)]) (reqs @ [DoFetchApi (pageRequest pages k)])"
    by (subst fetchLoop.simps) (simp only: t kM r nx a js Let_def sum.case simp_thms if_True)
  then show ?case
    by (simp add: ih u dr)
qed

lemma combine_lists:
  "overrides (foldl combineResponses a js) =
     (if js = [] then overrides a
      else Some (or_empty (overrides a) @ concat (map (\<lambda>j. or_empty (overrides j)) js)))"
  "blueprint_date_locks (foldl combineResponses a js) =
     (if js = [] then blueprint_date_locks a
      else Some (or_empty (blueprint_date_locks a)
                 @ concat (map (\<lambda>j. or_empty (blueprint_date_locks j)) js)))"
  by (induction js arbitrary: a) (auto simp: combineResponses_def or_empty_def)

lemma combine_scalars:
  "js \<noteq> [] \<Longrightarrow>
   visible_to_everyone (foldl combineResponses a js) = visible_to_everyone (last js) \<and>
   group_category_id (foldl combineResponses a js) = group_category_id (last js) \<and>
   item_id (foldl combineResponses a js) = item_id (last js) \<and>
   base_dates (foldl combineResponses a js) = base_dates (last js)"
  by (induction js arbitrary: a rule: rev_induct) (auto simp: combineResponses_def)

text \<open>
  C2. Against a backend that serves a chain of pages, the fetch requests the first
  \<open>MAX_PAGES\<close> pages (all of them when there are fewer) one after the other and ends without
  an error, also when a link is left. In the combined response \<open>overrides\<close> and
  \<open>blueprint_date_locks\<close> are the concatenations over the fetched pages in page order, and
  the other fields are those of the last fetched page.
\<close>

theorem pages_merged_up_to_cap:
  assumes "pages \<noteq> []"
    and "\<forall>i<length pages. fst (pages ! i) \<noteq> []"
    and "\<forall>i<length pages. doFetchApi (pageRequest pages i) = Inr (pageResponse pages i)"
  shows "(let js = map snd (take MAX_PAGES pages);
              combinedResponse = foldl combineResponses empty_json js;
              events = fetchAllPages doFetchApi makeCardId getOverriddenAssignees everyoneOptionId
                         onInitialStateSet (Some (fst (pages ! 0)))
          in fetchLoop doFetchApi (Some (fst (pages ! 0)))
               \<lparr>path = Some (fst (pages ! 0)), per_page = Some 100\<rparr> 0 [] []
             = (map (\<lambda>i. DoFetchApi (pageRequest pages i)) [0..<min (length pages) MAX_PAGES],
                Inr js) \<and>
             overrides combinedResponse = Some (concat (map (\<lambda>j. or_empty (overrides j)) js)) \<and>
             blueprint_date_locks combinedResponse
             = Some (concat (map (\<lambda>j. or_empty (blueprint_date_locks j)) js)) \<and>
             visible_to_everyone combinedResponse = visible_to_everyone (last js) \<and>
             group_category_id combinedResponse = group_category_id (last js) \<and>
             item_id combinedResponse = item_id (last js) \<and>
             base_dates combinedResponse = base_dates (last js) \<and>
             ShowFlashError \<notin> set events \<and>
             SetBlueprintDateLocks (blueprint_date_locks combinedResponse) \<in> set events)"
proof -
  let ?js = "map snd (take MAX_PAGES pages)"
  let ?m = "min (length pages) MAX_PAGES"
  have r0: "pageRequest pages 0 = \<lparr>path = Some (fst (pages ! 0)), per_page = Some 100\<rparr>"
    using assms(1) by (simp add: pageRequest_def)
  have "fetchLoop doFetchApi (path (pageRequest pages 0)) (pageRequest pages 0) 0 [] [] =
       ([] @ map (\<lambda>i. DoFetchApi (pageRequest pages i)) [0..<?m],
        Inr ([] @ map snd (drop 0 (take ?m pages))))"
    by (rule fetchLoop_pages[OF assms(2,3) refl]) simp
  then have loop: "fetchLoop doFetchApi (Some (fst (pages ! 0)))
               \<lparr>path = Some (fst (pages ! 0)), per_page = Some 100\<rparr> 0 [] []
             = (map (\<lambda>i. DoFetchApi (pageRequest pages i)) [0..<?m], Inr ?js)"
    by (simp add: r0 min_def)
  have ne: "?js \<noteq> []" using assms(1) by (simp add: MAX_PAGES_def)
  have ov: "overrides (foldl combineResponses empty_json ?js)
      = Some (concat (map (\<lambda>j. or_empty (overrides j)) ?js))"
    using ne by (simp only: combine_lists(1)) (simp add: empty_json_def or_empty_def)
  have bl: "blueprint_date_locks (foldl combineResponses empty_json ?js)
      = Some (concat (map (\<lambda>j. or_empty (blueprint_date_locks j)) ?js))"
    using ne by (simp only: combine_lists(2)) (simp add: empty_json_def or_empty_def)
  have ev1: "ShowFlashError \<notin> set (fetchAllPages doFetchApi makeCardId getOverriddenAssignees
      everyoneOptionId onInitialStateSet (Some (fst (pages ! 0))))"
    by (auto simp add: fetchAllPages_def loop Let_def completion_def)
  have ev2: "SetBlueprintDateLocks (blueprint_date_locks (foldl combineResponses empty_json ?js))
      \<in> set (fetchAllPages doFetchApi makeCardId getOverriddenAssignees
      everyoneOptionId onInitialStateSet (Some (fst (pages ! 0))))"
    by (simp add: fetchAllPages_def loop Let_def)
  show ?thesis
    unfolding Let_def using loop ov bl combine_scalars[OF ne, of empty_json] ev1 ev2 by blast
qed

theorem pages_merged_up_to_cap_witness:
  "overrides (foldl combineResponses empty_json
      [empty_json\<lparr>overrides := Some (replicate 100 (empty_override\<lparr>course_section_id := Some ''1''\<rparr>)),
                  blueprint_date_locks := Some [''due_dates'']\<rparr>,
       empty_json\<lparr>overrides := Some (replicate 100 (empty_override\<lparr>course_section_id := Some ''2''\<rparr>)),
                  blueprint_date_locks := Some [''availability_dates'']\<rparr>,
       empty_json\<lparr>overrides := Some (replicate 100 (empty_override\<lparr>course_section_id := Some ''3''\<rparr>)),
                  visible_to_everyone := Some True\<rparr>])
   = Some (replicate 100 (empty_override\<lparr>course_section_id := Some ''1''\<rparr>)
           @ replicate 100 (empty_override\<lparr>course_section_id := Some ''2''\<rparr>)
           @ replicate 100 (empty_override\<lparr>course_section_id := Some ''3''\<rparr>)) \<and>
   blueprint_date_locks (foldl combineResponses empty_json
      [empty_json\<lparr>overrides := Some (replicate 100 (empty_override\<lparr>course_section_id := Some ''1''\<rparr>)),
                  blueprint_date_locks := Some [''due_dates'']\<rparr>,
       empty_json\<lparr>overrides := Some (replicate 100 (empty_override\<lparr>course_section_id := Some ''2''\<rparr>)),
                  blueprint_date_locks := Some [''availability_dates'']\<rparr>,
       empty_json\<lparr>overrides := Some (replicate 100 (empty_override\<lparr>course_section_id := Some ''3''\<rparr>)),
                  visible_to_everyone := Some True\<rparr>])
   = Some [''due_dates'', ''availability_dates''] \<and>
   snd (fetchLoop
          (\<lambda>a. case path a of None \<Rightarrow> Inl RequestFailed
               | Some u \<Rightarrow>
                   Inr \<lparr>json = empty_json\<lparr>item_id := Some u\<rparr>,
                        next_url = (if length u < 11 then Some (CHR ''p'' # u) else None)\<rparr>)
          (Some ''p'') \<lparr>path = Some ''p'', per_page = Some 100\<rparr> 0 [] [])
   = Inr (map (\<lambda>i. empty_json\<lparr>item_id := Some (replicate (Suc i) CHR ''p'')\<rparr>) [0..<10])"
proof -
  let ?j1 = "empty_json\<lparr>overrides := Some (replicate 100 (empty_override\<lparr>course_section_id := Some ''1''\<rparr>)),
                  blueprint_date_locks := Some [''due_dates'']\<rparr>"
  let ?j2 = "empty_json\<lparr>overrides := Some (replicate 100 (empty_override\<lparr>course_section_id := Some ''2''\<rparr>)),
                  blueprint_date_locks := Some [''availability_dates'']\<rparr>"
  let ?j3 = "empty_json\<lparr>overrides := Some (replicate 100 (empty_override\<lparr>course_section_id := Some ''3''\<rparr>)),
                  visible_to_everyone := Some True\<rparr>"
  let ?P = "[(''a'', ?j1), (''b'', ?j2), (''c'', ?j3)]"
  let ?srv = "\<lambda>a. if path a = Some ''a'' then Inr (pageResponse ?P 0)
                   else if path a = Some ''b'' then Inr (pageResponse ?P (Suc 0))
                   else if path a = Some ''c'' then Inr (pageResponse ?P (Suc (Suc 0)))
                   else Inl RequestFailed"
  have p1: "?P \<noteq> []" by simp
  have p2: "\<forall>i<length ?P. fst (?P ! i) \<noteq> []"
    by (auto simp: less_Suc_eq)
  have p3: "\<forall>i<length ?P. ?srv (pageRequest ?P i) = Inr (pageResponse ?P i)"
    by (auto simp: less_Suc_eq pageRequest_def)
  note t1 = pages_merged_up_to_cap
      [where pages = ?P and doFetchApi = ?srv and makeCardId = "\<lambda>n. []"
         and getOverriddenAssignees = "\<lambda>x. None" and everyoneOptionId = "''everyone''"
         and onInitialStateSet = False, OF p1 p2 p3]
  have a: "overrides (foldl combineResponses empty_json [?j1, ?j2, ?j3])
      = Some (replicate 100 (empty_override\<lparr>course_section_id := Some ''1''\<rparr>)
           @ replicate 100 (empty_override\<lparr>course_section_id := Some ''2''\<rparr>)
           @ replicate 100 (empty_override\<lparr>course_section_id := Some ''3''\<rparr>))"
    and b: "blueprint_date_locks (foldl combineResponses empty_json [?j1, ?j2, ?j3])
      = Some [''due_dates'', ''availability_dates'']"
    using t1 by (simp_all add: Let_def MAX_PAGES_def or_empty_def empty_json_def)
  let ?Q = "map (\<lambda>i. (replicate (Suc i) CHR ''p'', empty_json\<lparr>item_id := Some (replicate (Suc i) CHR ''p'')\<rparr>))
              [0..<11]"
  let ?srv2 = "\<lambda>a. case path a of None \<Rightarrow> Inl RequestFailed
               | Some u \<Rightarrow>
                   Inr \<lparr>json = empty_json\<lparr>item_id := Some u\<rparr>,
                        next_url = (if length u < 11 then Some (CHR ''p'' # u) else None)\<rparr>"
  have q1: "?Q \<noteq> []" by simp
  have q2: "\<forall>i<length ?Q. fst (?Q ! i) \<noteq> []" by simp
  have q3: "\<forall>i<length ?Q. ?srv2 (pageRequest ?Q i) = Inr (pageResponse ?Q i)"
    by (simp add: pageRequest_def pageResponse_def)
  note t2 = pages_merged_up_to_cap
      [where pages = ?Q and doFetchApi = ?srv2 and makeCardId = "\<lambda>n. []"
         and getOverriddenAssignees = "\<lambda>x. None" and everyoneOptionId = "''everyone''"
         and onInitialStateSet = False, OF q1 q2 q3]
  have tk: "map snd (take MAX_PAGES ?Q)
      = map (\<lambda>i. empty_json\<lparr>item_id := Some (replicate (Suc i) CHR ''p'')\<rparr>) [0..<10]"
    by (simp add: MAX_PAGES_def take_map comp_def)
  have c: "snd (fetchLoop ?srv2 (Some ''p'') \<lparr>path = Some ''p'', per_page = Some 100\<rparr> 0 [] [])
      = Inr (map (\<lambda>i. empty_json\<lparr>item_id := Some (replicate (Suc i) CHR ''p'')\<rparr>) [0..<10])"
    using t2 unfolding Let_def tk by simp
  show ?thesis using a b c by simp
qed

lemma fetchLoop_requests:
  "fetchLoop f url args k acc reqs = (rs, out) \<Longrightarrow>
   \<exists>new. rs = reqs @ new \<and> length new \<le> MAX_PAGES - k \<and> list_all isRequest new \<and>
         (case out of
            Inl e \<Rightarrow> new \<noteq> [] \<and> (\<exists>a. last new = DoFetchApi a \<and> f a = Inl e)
          | Inr js \<Rightarrow> length js = length acc + length new)"
proof (induction f url args k acc reqs arbitrary: rs out rule: fetchLoop.induct)
  case (1 doFetchApi url args pageCount allResponses reqs)
  show ?case
  proof (cases "truthy url \<and> pageCount < MAX_PAGES")
    case False
    then have "fetchLoop doFetchApi url args pageCount allResponses reqs = (reqs, Inr allResponses)"
      by (subst fetchLoop.simps) (simp only: if_False)
    with 1(2) show ?thesis by auto
  next
    case True
    show ?thesis
    proof (cases "doFetchApi args")
      case (Inl e)
      have "fetchLoop doFetchApi url args pageCount allResponses reqs
          = (reqs @ [DoFetchApi args], Inl e)"
        by (subst fetchLoop.simps) (simp add: True Inl)
      with 1(2) Inl True show ?thesis by auto
    next
      case (Inr resp)
      let ?url' = "if truthy (next_url resp) then next_url resp else None"
      have "fetchLoop doFetchApi url args pageCount allResponses reqs
          = fetchLoop doFetchApi ?url' \<lparr>path = ?url', per_page = None\<rparr> (Suc pageCount)
              (allResponses @ [json resp]) (reqs @ [DoFetchApi args])"
        by (subst fetchLoop.simps) (simp add: True Inr Let_def)
      with 1(2) have r: "fetchLoop doFetchApi ?url' \<lparr>path = ?url', per_page = None\<rparr> (Suc pageCount)
              (allResponses @ [json resp]) (reqs @ [DoFetchApi args]) = (rs, out)" by simp
      from "1.IH"[OF True Inr refl r]
      obtain new where new: "rs = (reqs @ [DoFetchApi args]) @ new"
        "length new \<le> MAX_PAGES - Suc pageCount" "list_all isRequest new"
        "(case out of
            Inl e \<Rightarrow> new \<noteq> [] \<and> (\<exists>a. last new = DoFetchApi a \<and> doFetchApi a = Inl e)
          | Inr js \<Rightarrow> length js = length (allResponses @ [json resp]) + length new)"
        by blast
      show ?thesis
        using new True
        by (intro exI[of _ "DoFetchApi args # new"]) (auto split: sum.splits)
    qed
  qed
qed

lemma count_requests: "list_all isRequest xs \<Longrightarrow> \<not> isRequest e \<Longrightarrow> count_list xs e = 0"
  by (induction xs) auto

lemma requests_no_event: "list_all isRequest xs \<Longrightarrow> \<not> isRequest e \<Longrightarrow> e \<notin> set xs"
  by (induction xs) auto

lemma requestsOf_append: "requestsOf (xs @ ys) = requestsOf xs @ requestsOf ys"
  by (induction xs rule: requestsOf.induct) simp_all

lemma requestsOf_map: "requestsOf (map DoFetchApi as) = as"
  by (induction as) simp_all

lemma fetchLoop_chain:
  "fetchLoop f url args k acc reqs = (rs, out) \<Longrightarrow>
   \<exists>as. rs = reqs @ map DoFetchApi as \<and> length as \<le> MAX_PAGES - k \<and>
        (as = [] \<longleftrightarrow> \<not> (truthy url \<and> k < MAX_PAGES)) \<and>
        (as \<noteq> [] \<longrightarrow> hd as = args) \<and>
        (\<forall>i. Suc i < length as \<longrightarrow>
           (\<exists>r. f (as ! i) = Inr r \<and> truthy (next_url r) \<and>
                as ! Suc i = \<lparr>path = next_url r, per_page = None\<rparr>)) \<and>
        (case out of
           Inl e \<Rightarrow> as \<noteq> [] \<and> f (last as) = Inl e
         | Inr js \<Rightarrow>
             (\<forall>a\<in>set as. \<exists>r. f a = Inr r) \<and> length js = length acc + length as \<and>
             (as \<noteq> [] \<longrightarrow>
                (\<exists>r. f (last as) = Inr r \<and>
                     (\<not> truthy (next_url r) \<or> k + length as = MAX_PAGES))))"
proof (induction f url args k acc reqs arbitrary: rs out rule: fetchLoop.induct)
  case (1 doFetchApi url args pageCount allResponses reqs)
  show ?case
  proof (cases "truthy url \<and> pageCount < MAX_PAGES")
    case False
    then have "fetchLoop doFetchApi url args pageCount allResponses reqs = (reqs, Inr allResponses)"
      by (subst fetchLoop.simps) (simp only: if_False)
    with 1(2) False show ?thesis by (intro exI[of _ "[]"]) auto
  next
    case True
    show ?thesis
    proof (cases "doFetchApi args")
      case (Inl e)
      have "fetchLoop doFetchApi url args pageCount allResponses reqs
          = (reqs @ [DoFetchApi args], Inl e)"
        by (subst fetchLoop.simps) (simp add: True Inl)
      with 1(2) Inl True show ?thesis by (intro exI[of _ "[args]"]) auto
    next
      case (Inr resp)
      let ?url' = "if truthy (next_url resp) then next_url resp else None"
      let ?args' = "\<lparr>path = ?url', per_page = None\<rparr>"
      have "fetchLoop doFetchApi url args pageCount allResponses reqs
          = fetchLoop doFetchApi ?url' ?args' (Suc pageCount)
              (allResponses @ [json resp]) (reqs @ [DoFetchApi args])"
        by (subst fetchLoop.simps) (simp add: True Inr Let_def)
      with 1(2) have r: "fetchLoop doFetchApi ?url' ?args' (Suc pageCount)
              (allResponses @ [json resp]) (reqs @ [DoFetchApi args]) = (rs, out)" by simp
      from "1.IH"[OF True Inr refl r]
      obtain as where as: "rs = (reqs @ [DoFetchApi args]) @ map DoFetchApi as"
        "length as \<le> MAX_PAGES - Suc pageCount"
        "as = [] \<longleftrightarrow> \<not> (truthy ?url' \<and> Suc pageCount < MAX_PAGES)"
        "as \<noteq> [] \<longrightarrow> hd as = ?args'"
        "\<forall>i. Suc i < length as \<longrightarrow>
           (\<exists>r. doFetchApi (as ! i) = Inr r \<and> truthy (next_url r) \<and>
                as ! Suc i = \<lparr>path = next_url r, per_page = None\<rparr>)"
        "(case out of
           Inl e \<Rightarrow> as \<noteq> [] \<and> doFetchApi (last as) = Inl e
         | Inr js \<Rightarrow>
             (\<forall>a\<in>set as. \<exists>r. doFetchApi a = Inr r) \<and>
             length js = length (allResponses @ [json resp]) + length as \<and>
             (as \<noteq> [] \<longrightarrow>
                (\<exists>r. doFetchApi (last as) = Inr r \<and>
                     (\<not> truthy (next_url r) \<or> Suc pageCount + length as = MAX_PAGES))))"
        by blast
      have nx: "as \<noteq> [] \<Longrightarrow> truthy (next_url resp) \<and> hd as = \<lparr>path = next_url resp, per_page = None\<rparr>"
        using as(3,4) by (auto simp: truthy_def split: if_splits)
      have chain: "\<forall>i. Suc i < length (args # as) \<longrightarrow>
           (\<exists>r. doFetchApi ((args # as) ! i) = Inr r \<and> truthy (next_url r) \<and>
                (args # as) ! Suc i = \<lparr>path = next_url r, per_page = None\<rparr>)"
      proof (intro allI impI)
        fix i assume i: "Suc i < length (args # as)"
        show "\<exists>r. doFetchApi ((args # as) ! i) = Inr r \<and> truthy (next_url r) \<and>
                (args # as) ! Suc i = \<lparr>path = next_url r, per_page = None\<rparr>"
        proof (cases i)
          case 0
          with i have "as \<noteq> []" by auto
          with nx have "truthy (next_url resp)" "as ! 0 = \<lparr>path = next_url resp, per_page = None\<rparr>"
            by (auto simp: hd_conv_nth)
          with 0 Inr show ?thesis by simp
        next
          case (Suc j)
          with i as(5) show ?thesis by simp
        qed
      qed
      have out: "(case out of
           Inl e \<Rightarrow> args # as \<noteq> [] \<and> doFetchApi (last (args # as)) = Inl e
         | Inr js \<Rightarrow>
             (\<forall>a\<in>set (args # as). \<exists>r. doFetchApi a = Inr r) \<and>
             length js = length allResponses + length (args # as) \<and>
             (args # as \<noteq> [] \<longrightarrow>
                (\<exists>r. doFetchApi (last (args # as)) = Inr r \<and>
                     (\<not> truthy (next_url r) \<or> pageCount + length (args # as) = MAX_PAGES))))"
      proof (cases out)
        case (Inl e)
        with as(6) show ?thesis by simp
      next
        case (Inr js)
        show ?thesis
        proof (cases "as = []")
          case True
          with as(3) have "\<not> truthy (next_url resp) \<or> Suc pageCount = MAX_PAGES"
            using \<open>truthy url \<and> pageCount < MAX_PAGES\<close> by (auto split: if_splits)
          with True as(6) Inr \<open>doFetchApi args = Inr resp\<close> show ?thesis by auto
        next
          case False
          with as(6) Inr \<open>doFetchApi args = Inr resp\<close> show ?thesis by auto
        qed
      qed
      show ?thesis
        using as(1,2) True chain out
        by (intro exI[of _ "args # as"]) auto
    qed
  qed
qed

lemma sum_cases_excl: "(\<exists>e. x = Inl e) \<Longrightarrow> \<not> (\<exists>r. x = Inr r)"
  by auto

lemma fetch_trace:
  assumes l: "fetchLoop doFetchApi url \<lparr>path = url, per_page = Some 100\<rparr> 0 [] [] = (reqs, out)"
    and E: "E = [SetFetchInFlight True] @ reqs
                @ (case out of Inl e \<Rightarrow> [ShowFlashError, HandleDismiss] | Inr js \<Rightarrow> mid js)
                @ [SetHasFetched True, SetFetchInFlight False, SetInitialLoadRef True]"
    and mid: "\<And>js. requestsOf (mid js) = [] \<and> ShowFlashError \<notin> set (mid js) \<and>
                   HandleDismiss \<notin> set (mid js) \<and> count_list (mid js) (SetFetchInFlight True) = 0 \<and>
                   count_list (mid js) (SetFetchInFlight False) = 0 \<and>
                   count_list (mid js) (SetHasFetched True) = 0 \<and>
                   count_list (mid js) (SetInitialLoadRef True) = 0"
  shows "(\<lambda>E.
             (let rs = requestsOf E in
                length rs \<le> 10 \<and>
                (rs = [] \<longleftrightarrow> \<not> (url \<noteq> None \<and> url \<noteq> Some [])) \<and>
                (rs \<noteq> [] \<longrightarrow> hd rs = \<lparr>path = url, per_page = Some 100\<rparr>) \<and>
                (\<forall>i. Suc i < length rs \<longrightarrow>
                   (\<exists>r. doFetchApi (rs ! i) = Inr r \<and> (next_url r \<noteq> None \<and> next_url r \<noteq> Some []) \<and>
                        rs ! Suc i = \<lparr>path = next_url r, per_page = None\<rparr>)) \<and>
                ((\<exists>a\<in>set rs. \<exists>e. doFetchApi a = Inl e) \<longrightarrow>
                   E = SetFetchInFlight True # map DoFetchApi rs
                       @ [ShowFlashError, HandleDismiss,
                          SetHasFetched True, SetFetchInFlight False, SetInitialLoadRef True]) \<and>
                ((\<forall>a\<in>set rs. \<exists>r. doFetchApi a = Inr r) \<longrightarrow>
                   ShowFlashError \<notin> set E \<and> HandleDismiss \<notin> set E \<and>
                   (rs \<noteq> [] \<longrightarrow>
                      (\<exists>r. doFetchApi (last rs) = Inr r \<and>
                           (\<not> (next_url r \<noteq> None \<and> next_url r \<noteq> Some []) \<or> length rs = 10))) \<and>
                   (\<exists>mid. E = SetFetchInFlight True # map DoFetchApi rs @ mid
                                @ [SetHasFetched True, SetFetchInFlight False,
                                   SetInitialLoadRef True])) \<and>
                count_list E (SetFetchInFlight True) = 1 \<and>
                count_list E (SetFetchInFlight False) = 1 \<and>
                count_list E (SetHasFetched True) = 1 \<and>
                count_list E (SetInitialLoadRef True) = 1)) E"
proof -
  from fetchLoop_chain[OF l] obtain as where as0: "reqs = [] @ map DoFetchApi as \<and>
    length as \<le> MAX_PAGES - 0 \<and>
    (as = [] \<longleftrightarrow> \<not> (truthy url \<and> 0 < MAX_PAGES)) \<and>
    (as \<noteq> [] \<longrightarrow> hd as = \<lparr>path = url, per_page = Some 100\<rparr>) \<and>
    (\<forall>i. Suc i < length as \<longrightarrow>
           (\<exists>r. doFetchApi (as ! i) = Inr r \<and> truthy (next_url r) \<and>
                as ! Suc i = \<lparr>path = next_url r, per_page = None\<rparr>)) \<and>
    (case out of
           Inl e \<Rightarrow> as \<noteq> [] \<and> doFetchApi (last as) = Inl e
         | Inr js \<Rightarrow>
             (\<forall>a\<in>set as. \<exists>r. doFetchApi a = Inr r) \<and> length js = length ([] :: json_response list) + length as \<and>
             (as \<noteq> [] \<longrightarrow>
                (\<exists>r. doFetchApi (last as) = Inr r \<and>
                     (\<not> truthy (next_url r) \<or> 0 + length as = MAX_PAGES))))" ..
  have as: "reqs = map DoFetchApi as" "length as \<le> MAX_PAGES" "as = [] \<longleftrightarrow> \<not> truthy url"
    "as \<noteq> [] \<longrightarrow> hd as = \<lparr>path = url, per_page = Some 100\<rparr>"
    "\<forall>i. Suc i < length as \<longrightarrow>
           (\<exists>r. doFetchApi (as ! i) = Inr r \<and> truthy (next_url r) \<and>
                as ! Suc i = \<lparr>path = next_url r, per_page = None\<rparr>)"
    "(case out of
           Inl e \<Rightarrow> as \<noteq> [] \<and> doFetchApi (last as) = Inl e
         | Inr js \<Rightarrow>
             (\<forall>a\<in>set as. \<exists>r. doFetchApi a = Inr r) \<and> length js = length ([] :: json_response list) + length as \<and>
             (as \<noteq> [] \<longrightarrow>
                (\<exists>r. doFetchApi (last as) = Inr r \<and>
                     (\<not> truthy (next_url r) \<or> 0 + length as = MAX_PAGES))))"
    using as0 by (simp_all add: MAX_PAGES_def)
  have cr: "count_list (map DoFetchApi as) e = 0" if "\<not> isRequest e" for e
  proof (rule count_requests)
    show "list_all isRequest (map DoFetchApi as)" by (simp add: list_all_iff)
    show "\<not> isRequest e" by (rule that)
  qed
  have nr: "e \<notin> set (map DoFetchApi as)" if "\<not> isRequest e" for e
    using that by auto
  show ?thesis
  proof (cases out)
    case (Inl e)
    with as(6) have f: "as \<noteq> []" "doFetchApi (last as) = Inl e" by simp_all
    then have fs: "\<exists>a\<in>set as. \<exists>e. doFetchApi a = Inl e" using last_in_set by blast
    then have nall: "\<not> (\<forall>a\<in>set as. \<exists>r. doFetchApi a = Inr r)" by (metis sum.distinct(1))
    have rq: "requestsOf E = as"
      by (simp add: E Inl as(1) requestsOf_append requestsOf_map)
    have EE: "E = SetFetchInFlight True # map DoFetchApi as
                       @ [ShowFlashError, HandleDismiss,
                          SetHasFetched True, SetFetchInFlight False, SetInitialLoadRef True]"
      by (simp add: E Inl as(1))
    have cnt: "count_list E (SetFetchInFlight True) = 1" "count_list E (SetFetchInFlight False) = 1"
      "count_list E (SetHasFetched True) = 1" "count_list E (SetInitialLoadRef True) = 1"
      by (simp_all add: EE cr)
    show ?thesis
      unfolding Let_def rq using as(2-5) nall cnt EE by (simp add: MAX_PAGES_def truthy_iff)
  next
    case (Inr js)
    with as(6) have ok: "\<forall>a\<in>set as. \<exists>r. doFetchApi a = Inr r"
      "as \<noteq> [] \<longrightarrow> (\<exists>r. doFetchApi (last as) = Inr r \<and>
                     (\<not> truthy (next_url r) \<or> length as = MAX_PAGES))" by simp_all
    then have nf: "\<not> (\<exists>a\<in>set as. \<exists>e. doFetchApi a = Inl e)" by (metis sum.distinct(1))
    have rq: "requestsOf E = as"
      using mid[of js] by (simp add: E Inr as(1) requestsOf_append requestsOf_map)
    have EE: "E = SetFetchInFlight True # map DoFetchApi as @ mid js
                       @ [SetHasFetched True, SetFetchInFlight False, SetInitialLoadRef True]"
      by (simp add: E Inr as(1))
    have cnt: "count_list E (SetFetchInFlight True) = 1" "count_list E (SetFetchInFlight False) = 1"
      "count_list E (SetHasFetched True) = 1" "count_list E (SetInitialLoadRef True) = 1"
      using mid[of js] by (simp_all add: EE cr)
    have nfl: "ShowFlashError \<notin> set E" "HandleDismiss \<notin> set E"
      using mid[of js] by (auto simp: EE)
    have ex: "\<exists>m. E = SetFetchInFlight True # map DoFetchApi as @ m
                       @ [SetHasFetched True, SetFetchInFlight False, SetInitialLoadRef True]"
      using EE by blast
    show ?thesis
      unfolding Let_def rq using as(2-5) ok nf cnt nfl ex by (simp add: MAX_PAGES_def truthy_iff)
  qed
qed

text \<open>
  C8. The requests of a fetch form a chain: the first asks for the url of the item, each
  further one for the link of the response before it, which therefore succeeded, and there
  are at most ten. So a request that fails is the last one made: it is not issued again and
  nothing is requested after it. Whenever a request fails, the calls that follow it are the
  flash error, the dismissal and the three calls of the \<open>finally\<close> block, and nothing else.
  When no request fails, neither the flash error nor the dismissal is called, and the chain
  ends at a response without a link or at the tenth page. In both cases \<open>fetchInFlight\<close> is set
  once at the start, and the three calls of the \<open>finally\<close> block are made once, at the end.
  This holds of the fetch of the overrides and of the fetch of the blueprint date locks.
\<close>

theorem fetch_failure_flash_dismiss_complete:
  "(let ok = (\<lambda>E.
             (let rs = requestsOf E in
                length rs \<le> 10 \<and>
                (rs = [] \<longleftrightarrow> \<not> (url \<noteq> None \<and> url \<noteq> Some [])) \<and>
                (rs \<noteq> [] \<longrightarrow> hd rs = \<lparr>path = url, per_page = Some 100\<rparr>) \<and>
                (\<forall>i. Suc i < length rs \<longrightarrow>
                   (\<exists>r. doFetchApi (rs ! i) = Inr r \<and> (next_url r \<noteq> None \<and> next_url r \<noteq> Some []) \<and>
                        rs ! Suc i = \<lparr>path = next_url r, per_page = None\<rparr>)) \<and>
                ((\<exists>a\<in>set rs. \<exists>e. doFetchApi a = Inl e) \<longrightarrow>
                   E = SetFetchInFlight True # map DoFetchApi rs
                       @ [ShowFlashError, HandleDismiss,
                          SetHasFetched True, SetFetchInFlight False, SetInitialLoadRef True]) \<and>
                ((\<forall>a\<in>set rs. \<exists>r. doFetchApi a = Inr r) \<longrightarrow>
                   ShowFlashError \<notin> set E \<and> HandleDismiss \<notin> set E \<and>
                   (rs \<noteq> [] \<longrightarrow>
                      (\<exists>r. doFetchApi (last rs) = Inr r \<and>
                           (\<not> (next_url r \<noteq> None \<and> next_url r \<noteq> Some []) \<or> length rs = 10))) \<and>
                   (\<exists>mid. E = SetFetchInFlight True # map DoFetchApi rs @ mid
                                @ [SetHasFetched True, SetFetchInFlight False,
                                   SetInitialLoadRef True])) \<and>
                count_list E (SetFetchInFlight True) = 1 \<and>
                count_list E (SetFetchInFlight False) = 1 \<and>
                count_list E (SetHasFetched True) = 1 \<and>
                count_list E (SetInitialLoadRef True) = 1))
    in ok (fetchAllPages doFetchApi makeCardId getOverriddenAssignees everyoneOptionId
             onInitialStateSet url) \<and>
       ok (fetchBlueprintLocks doFetchApi url))"
proof -
  obtain reqs out where
    l: "fetchLoop doFetchApi url \<lparr>path = url, per_page = Some 100\<rparr> 0 [] [] = (reqs, out)"
    by (cases "fetchLoop doFetchApi url \<lparr>path = url, per_page = Some 100\<rparr> 0 [] []") blast
  let ?mid1 = "\<lambda>allResponses.
          (let combinedResponse = foldl combineResponses empty_json allResponses;
               d = deriveCards makeCardId getOverriddenAssignees everyoneOptionId combinedResponse;
               hasModuleOverride =
                 list_ex (\<lambda>ov. truthy (context_module_id ov)) (or_empty (overrides combinedResponse))
           in [SetModuleAssignees (derived_allModuleAssignees d),
                 SetHasModuleOverrides hasModuleOverride,
                 SetGroupCategoryId (group_category_id combinedResponse),
                 SetOverridesFetched True,
                 SetBlueprintDateLocks (blueprint_date_locks combinedResponse),
                 SetDisabledOptionIdsRef (derived_selectedOptionIds d),
                 SetInitialCards (derived_cards d)]
              @ (if onInitialStateSet then [OnInitialStateSet (derived_cards d)] else [])
              @ [SetAssignToCards (derived_cards d)])"
  let ?mid2 = "\<lambda>allResponses.
          [SetBlueprintDateLocks (blueprint_date_locks (foldl combineLocks empty_json allResponses))]"
  have e1: "fetchAllPages doFetchApi makeCardId getOverriddenAssignees everyoneOptionId
             onInitialStateSet url
        = [SetFetchInFlight True] @ reqs
          @ (case out of Inl e \<Rightarrow> [ShowFlashError, HandleDismiss] | Inr js \<Rightarrow> ?mid1 js)
          @ [SetHasFetched True, SetFetchInFlight False, SetInitialLoadRef True]"
    by (cases out) (simp_all add: fetchAllPages_def l Let_def completion_def)
  have e2: "fetchBlueprintLocks doFetchApi url
        = [SetFetchInFlight True] @ reqs
          @ (case out of Inl e \<Rightarrow> [ShowFlashError, HandleDismiss] | Inr js \<Rightarrow> ?mid2 js)
          @ [SetHasFetched True, SetFetchInFlight False, SetInitialLoadRef True]"
    by (cases out) (simp_all add: fetchBlueprintLocks_def l Let_def completion_def)
  have m1: "requestsOf (?mid1 js) = [] \<and> ShowFlashError \<notin> set (?mid1 js) \<and>
                   HandleDismiss \<notin> set (?mid1 js) \<and> count_list (?mid1 js) (SetFetchInFlight True) = 0 \<and>
                   count_list (?mid1 js) (SetFetchInFlight False) = 0 \<and>
                   count_list (?mid1 js) (SetHasFetched True) = 0 \<and>
                   count_list (?mid1 js) (SetInitialLoadRef True) = 0" for js
    by (simp add: Let_def)
  have m2: "requestsOf (?mid2 js) = [] \<and> ShowFlashError \<notin> set (?mid2 js) \<and>
                   HandleDismiss \<notin> set (?mid2 js) \<and> count_list (?mid2 js) (SetFetchInFlight True) = 0 \<and>
                   count_list (?mid2 js) (SetFetchInFlight False) = 0 \<and>
                   count_list (?mid2 js) (SetHasFetched True) = 0 \<and>
                   count_list (?mid2 js) (SetInitialLoadRef True) = 0" for js
    by simp
  note t1 = fetch_trace[OF l e1 m1]
  note t2 = fetch_trace[OF l e2 m2]
  show ?thesis
    unfolding Let_def by (rule conjI[OF t1[unfolded Let_def] t2[unfolded Let_def]])
qed

theorem fetch_failure_flash_dismiss_complete_witness:
  "fetchAllPages
     (\<lambda>a. if per_page a = Some 100
          then Inr \<lparr>json = empty_json, next_url = Some ''page2''\<rparr> else Inl RequestFailed)
     (\<lambda>n. []) (\<lambda>x. None) ''everyone'' False (Some ''page1'')
   = [SetFetchInFlight True,
      DoFetchApi \<lparr>path = Some ''page1'', per_page = Some 100\<rparr>,
      DoFetchApi \<lparr>path = Some ''page2'', per_page = None\<rparr>,
      ShowFlashError, HandleDismiss,
      SetHasFetched True, SetFetchInFlight False, SetInitialLoadRef True] \<and>
   fetchBlueprintLocks
     (\<lambda>a. if per_page a = Some 100
          then Inr \<lparr>json = empty_json, next_url = Some ''page2''\<rparr> else Inl RequestFailed)
     (Some ''page1'')
   = [SetFetchInFlight True,
      DoFetchApi \<lparr>path = Some ''page1'', per_page = Some 100\<rparr>,
      DoFetchApi \<lparr>path = Some ''page2'', per_page = None\<rparr>,
      ShowFlashError, HandleDismiss,
      SetHasFetched True, SetFetchInFlight False, SetInitialLoadRef True] \<and>
   ShowFlashError \<notin> set (fetchAllPages (\<lambda>a. Inr \<lparr>json = empty_json, next_url = None\<rparr>)
                             (\<lambda>n. []) (\<lambda>x. None) ''everyone'' False (Some ''page1'')) \<and>
   HandleDismiss \<notin> set (fetchAllPages (\<lambda>a. Inr \<lparr>json = empty_json, next_url = None\<rparr>)
                            (\<lambda>n. []) (\<lambda>x. None) ''everyone'' False (Some ''page1'')) \<and>
   count_list (fetchAllPages (\<lambda>a. Inr \<lparr>json = empty_json, next_url = None\<rparr>)
                 (\<lambda>n. []) (\<lambda>x. None) ''everyone'' False (Some ''page1''))
     (SetFetchInFlight False) = 1 \<and>
   requestsOf (fetchAllPages (\<lambda>a. Inr \<lparr>json = empty_json, next_url = None\<rparr>)
                 (\<lambda>n. []) (\<lambda>x. None) ''everyone'' False (Some ''page1''))
   = [\<lparr>path = Some ''page1'', per_page = Some 100\<rparr>]"
proof -
  let ?f = "\<lambda>a. if per_page a = Some 100
          then Inr \<lparr>json = empty_json, next_url = Some ''page2''\<rparr> else Inl RequestFailed"
  let ?g = "\<lambda>a::fetch_args. Inr \<lparr>json = empty_json, next_url = None\<rparr> :: js_error + response"
  have lf: "fetchLoop ?f (Some ''page1'') \<lparr>path = Some ''page1'', per_page = Some 100\<rparr> 0 [] []
      = ([DoFetchApi \<lparr>path = Some ''page1'', per_page = Some 100\<rparr>,
          DoFetchApi \<lparr>path = Some ''page2'', per_page = None\<rparr>], Inl RequestFailed)"
    by (simp add: fetchLoop.simps truthy_def MAX_PAGES_def)
  have lg: "fetchLoop ?g (Some ''page1'') \<lparr>path = Some ''page1'', per_page = Some 100\<rparr> 0 [] []
      = ([DoFetchApi \<lparr>path = Some ''page1'', per_page = Some 100\<rparr>], Inr [empty_json])"
    by (simp add: fetchLoop.simps truthy_def MAX_PAGES_def)
  have rf: "requestsOf (fetchAllPages ?f (\<lambda>n. []) (\<lambda>x. None) ''everyone'' False (Some ''page1''))
      = [\<lparr>path = Some ''page1'', per_page = Some 100\<rparr>, \<lparr>path = Some ''page2'', per_page = None\<rparr>]"
    unfolding fetchAllPages_def lf by (simp add: completion_def)
  have rl: "requestsOf (fetchBlueprintLocks ?f (Some ''page1''))
      = [\<lparr>path = Some ''page1'', per_page = Some 100\<rparr>, \<lparr>path = Some ''page2'', per_page = None\<rparr>]"
    unfolding fetchBlueprintLocks_def lf by (simp add: completion_def)
  have rg: "requestsOf (fetchAllPages ?g (\<lambda>n. []) (\<lambda>x. None) ''everyone'' False (Some ''page1''))
      = [\<lparr>path = Some ''page1'', per_page = Some 100\<rparr>]"
    unfolding fetchAllPages_def lg by (simp add: completion_def Let_def)
  note tf = fetch_failure_flash_dismiss_complete
      [where doFetchApi = ?f and url = "Some ''page1''" and makeCardId = "\<lambda>n. []"
         and getOverriddenAssignees = "\<lambda>x. None" and everyoneOptionId = "''everyone''"
         and onInitialStateSet = False, unfolded Let_def rf rl]
  note tg = fetch_failure_flash_dismiss_complete
      [where doFetchApi = ?g and url = "Some ''page1''" and makeCardId = "\<lambda>n. []"
         and getOverriddenAssignees = "\<lambda>x. None" and everyoneOptionId = "''everyone''"
         and onInitialStateSet = False, unfolded Let_def rg]
  have a: "fetchAllPages ?f (\<lambda>n. []) (\<lambda>x. None) ''everyone'' False (Some ''page1'')
   = [SetFetchInFlight True,
      DoFetchApi \<lparr>path = Some ''page1'', per_page = Some 100\<rparr>,
      DoFetchApi \<lparr>path = Some ''page2'', per_page = None\<rparr>,
      ShowFlashError, HandleDismiss,
      SetHasFetched True, SetFetchInFlight False, SetInitialLoadRef True]"
    using tf by simp
  have b: "fetchBlueprintLocks ?f (Some ''page1'')
   = [SetFetchInFlight True,
      DoFetchApi \<lparr>path = Some ''page1'', per_page = Some 100\<rparr>,
      DoFetchApi \<lparr>path = Some ''page2'', per_page = None\<rparr>,
      ShowFlashError, HandleDismiss,
      SetHasFetched True, SetFetchInFlight False, SetInitialLoadRef True]"
    using tf by simp
  have c: "ShowFlashError \<notin> set (fetchAllPages ?g (\<lambda>n. []) (\<lambda>x. None) ''everyone'' False (Some ''page1''))"
     "HandleDismiss \<notin> set (fetchAllPages ?g (\<lambda>n. []) (\<lambda>x. None) ''everyone'' False (Some ''page1''))"
     "count_list (fetchAllPages ?g (\<lambda>n. []) (\<lambda>x. None) ''everyone'' False (Some ''page1''))
        (SetFetchInFlight False) = 1"
    using tg by simp_all
  show ?thesis using a b c rg by simp
qed

section \<open>Properties of the card derivation\<close>

lemma filter_empty_all: "(filter (\<lambda>i. \<not> P i) ids = []) = list_all P ids"
  by (induction ids) auto

lemma overrideStep_full:
  "derived_cards (overrideStep mk t st ov) =
     derived_cards st
     @ (if showsCard t ov then [overrideCard (mk (derived_cardIds st)) (cardOptions t ov) ov] else [])"
  "derived_cardIds (overrideStep mk t st ov) =
     derived_cardIds st + (if showsCard t ov then 1 else 0)"
  by (cases "student_ids ov";
      auto simp: overrideStep_def showsCard_def supersededModuleOverride_def Let_def or_empty_def
        cardOptions_def filter_empty_all)+

lemma foldl_overrideStep_full:
  "derived_cards (foldl (overrideStep mk t) st ovs) =
     derived_cards st
     @ map (\<lambda>nov. overrideCard (mk (fst nov)) (cardOptions t (snd nov)) (snd nov))
         (enumerate (derived_cardIds st) (filter (showsCard t) ovs))"
  by (induction ovs arbitrary: st) (simp_all add: overrideStep_full)

text \<open>
  C7. The initial cards are the "everyone" card, present exactly when the item is visible to
  everyone and no override has a \<open>course_id\<close>, followed by one card for each override, in
  order, that is not marked \<open>unassign_item\<close>, is not a module override whose students (at
  least one) or section are all among the overridden targets, and has no empty list of
  students. The "everyone" card carries the dates of the item and selects the "everyone"
  option; the card of an override carries its dates, its id and its module, and selects its
  students, section, group, course or mastery-paths option.
\<close>

theorem initial_cards_derived:
  "(let present = (\<lambda>v :: string option. v \<noteq> None \<and> v \<noteq> Some []);
        printed = (\<lambda>v :: string option. case v of None \<Rightarrow> ''undefined'' | Some s \<Rightarrow> s);
        ovs = (case overrides resp of None \<Rightarrow> [] | Some l \<Rightarrow> l);
        targets = getOverriddenAssignees (overrides resp);
        overriddenStudent =
          (\<lambda>i. case targets of None \<Rightarrow> False
                | Some t \<Rightarrow> (case target_students t of None \<Rightarrow> False
                             | Some l \<Rightarrow> (case i of None \<Rightarrow> False | Some s \<Rightarrow> s \<in> set l)));
        overriddenSection =
          (\<lambda>i. case targets of None \<Rightarrow> False
                | Some t \<Rightarrow> (case target_sections t of None \<Rightarrow> False
                             | Some l \<Rightarrow> (case i of None \<Rightarrow> False | Some s \<Rightarrow> s \<in> set l)));
        superseded =
          (\<lambda>ov. present (context_module_id ov) \<and>
                 ((case student_ids ov of None \<Rightarrow> False
                   | Some ids \<Rightarrow> ids \<noteq> [] \<and> (\<forall>i\<in>set ids. overriddenStudent i)) \<or>
                  (present (course_section_id ov) \<and> overriddenSection (course_section_id ov))));
        shown = filter (\<lambda>ov. unassign_item ov \<noteq> Some True \<and> \<not> superseded ov \<and>
                              student_ids ov \<noteq> Some []) ovs;
        everyone = (visible_to_everyone resp = Some True \<and>
                    (\<forall>ov\<in>set ovs. \<not> present (course_id ov)));
        options =
          (\<lambda>ov. map (\<lambda>i. ''student-'' @ printed i)
                   (filter (\<lambda>i. \<not> (present (context_module_id ov) \<and> overriddenStudent i))
                      (case student_ids ov of None \<Rightarrow> [] | Some l \<Rightarrow> l))
                 @ (if present (noop_id ov) then [''mastery_paths''] else [])
                 @ (if present (course_section_id ov)
                    then [''section-'' @ printed (course_section_id ov)] else [])
                 @ (if present (course_id ov) then [''everyone''] else [])
                 @ (if present (group_id ov) then [''group-'' @ printed (group_id ov)] else []));
        everyoneCards =
          (if everyone
           then [\<lparr>key = makeCardId 0, isValid = True, highlightCard = None, hasAssignees = True,
                  card_date = (\<lambda>f. case f of DueAt \<Rightarrow> base_dates resp DueAt
                                    | UnlockAt \<Rightarrow> base_dates resp UnlockAt
                                    | LockAt \<Rightarrow> base_dates resp LockAt | _ \<Rightarrow> Null),
                  original_due_at = base_dates resp DueAt,
                  selectedAssigneeIds = [everyoneOptionId], defaultOptions = None,
                  overrideId = item_id resp, index = None,
                  contextModuleId = None, contextModuleName = None\<rparr>]
           else []);
        overrideCards =
          map (\<lambda>(n, ov).
                 \<lparr>key = makeCardId n, isValid = True, highlightCard = None, hasAssignees = True,
                  card_date = (\<lambda>f. case f of DueAt \<Rightarrow> dates ov DueAt
                                    | UnlockAt \<Rightarrow> dates ov UnlockAt
                                    | LockAt \<Rightarrow> dates ov LockAt | _ \<Rightarrow> Null),
                  original_due_at = dates ov DueAt,
                  selectedAssigneeIds = options ov, defaultOptions = Some (options ov),
                  overrideId = override_id ov, index = None,
                  contextModuleId = context_module_id ov,
                  contextModuleName = context_module_name ov\<rparr>)
            (enumerate (length everyoneCards) shown)
    in derived_cards (deriveCards makeCardId getOverriddenAssignees everyoneOptionId resp)
         = everyoneCards @ overrideCards)"
proof -
  let ?t = "getOverriddenAssignees (overrides resp)"
  have sh: "showsCard ?t = (\<lambda>ov. unassign_item ov \<noteq> Some True \<and>
      \<not> (truthy (context_module_id ov) \<and>
                 ((case student_ids ov of None \<Rightarrow> False
                   | Some ids \<Rightarrow> ids \<noteq> [] \<and> (\<forall>i\<in>set ids. case ?t of None \<Rightarrow> False
                | Some t \<Rightarrow> (case target_students t of None \<Rightarrow> False
                             | Some l \<Rightarrow> (case i of None \<Rightarrow> False | Some s \<Rightarrow> s \<in> set l)))) \<or>
                  (truthy (course_section_id ov) \<and> (case ?t of None \<Rightarrow> False
                | Some t \<Rightarrow> (case target_sections t of None \<Rightarrow> False
                             | Some l \<Rightarrow> (case course_section_id ov of None \<Rightarrow> False | Some s \<Rightarrow> s \<in> set l)))))) \<and>
                              student_ids ov \<noteq> Some [])"
    by (rule ext)
       (auto simp: showsCard_def supersededModuleOverride_def studentsOverridden_def
          sectionsOverridden_def array_includes_def list_all_iff split: option.splits)
  have co: "cardOptions ?t = (\<lambda>ov. map (\<lambda>i. ''student-'' @ template i)
                   (filter (\<lambda>i. \<not> (truthy (context_module_id ov) \<and> (case ?t of None \<Rightarrow> False
                | Some t \<Rightarrow> (case target_students t of None \<Rightarrow> False
                             | Some l \<Rightarrow> (case i of None \<Rightarrow> False | Some s \<Rightarrow> s \<in> set l)))))
                      (case student_ids ov of None \<Rightarrow> [] | Some l \<Rightarrow> l))
                 @ (if truthy (noop_id ov) then [''mastery_paths''] else [])
                 @ (if truthy (course_section_id ov)
                    then [''section-'' @ template (course_section_id ov)] else [])
                 @ (if truthy (course_id ov) then [''everyone''] else [])
                 @ (if truthy (group_id ov) then [''group-'' @ template (group_id ov)] else []))"
    by (rule ext)
       (auto simp: cardOptions_def studentsOverridden_def array_includes_def or_empty_def
          split: option.splits intro!: filter_cong)
  show ?thesis
    unfolding Let_def deriveCards_def foldl_overrideStep_full sh co
    by (simp add: or_empty_def list_ex_iff everyoneCard_def overrideCard_def split_def
        truthy_iff template_def)
qed

theorem initial_cards_derived_witness:
  "derived_cards
     (deriveCards (\<lambda>n. replicate (Suc n) CHR ''c'')
        (\<lambda>ovs. Some \<lparr>target_sections = Some [''42''], target_students = Some []\<rparr>) ''everyone''
        (empty_json\<lparr>overrides := Some [empty_override\<lparr>override_id := Some ''9'',
                                                       course_section_id := Some ''42''\<rparr>],
                    visible_to_everyone := Some True, item_id := Some ''1''\<rparr>))
   = [\<lparr>key = ''c'', isValid = True, highlightCard = None, hasAssignees = True,
       card_date = (\<lambda>f. case f of DueAt \<Rightarrow> Undefined | UnlockAt \<Rightarrow> Undefined
                         | LockAt \<Rightarrow> Undefined | _ \<Rightarrow> Null),
       original_due_at = Undefined, selectedAssigneeIds = [''everyone''],
       defaultOptions = None, overrideId = Some ''1'', index = None,
       contextModuleId = None, contextModuleName = None\<rparr>,
      \<lparr>key = ''cc'', isValid = True, highlightCard = None, hasAssignees = True,
       card_date = (\<lambda>f. case f of DueAt \<Rightarrow> Undefined | UnlockAt \<Rightarrow> Undefined
                         | LockAt \<Rightarrow> Undefined | _ \<Rightarrow> Null),
       original_due_at = Undefined, selectedAssigneeIds = [''section-42''],
       defaultOptions = Some [''section-42''], overrideId = Some ''9'', index = None,
       contextModuleId = None, contextModuleName = None\<rparr>] \<and>
   map (\<lambda>c. (key c, selectedAssigneeIds c, overrideId c, contextModuleId c))
     (derived_cards
       (deriveCards (\<lambda>n. replicate (Suc n) CHR ''c'')
          (\<lambda>ovs. Some \<lparr>target_sections = Some [''42''], target_students = Some [''5'']\<rparr>)
          ''everyone''
          (empty_json\<lparr>overrides :=
                        Some [empty_override\<lparr>override_id := Some ''10'',
                                             course_section_id := Some ''42'',
                                             context_module_id := Some ''3''\<rparr>,
                              empty_override\<lparr>override_id := Some ''11'',
                                             student_ids := Some [Some ''6''],
                                             unassign_item := Some True\<rparr>,
                              empty_override\<lparr>override_id := Some ''12'',
                                             student_ids := Some [Some ''5'', Some ''8''],
                                             context_module_id := Some ''3''\<rparr>,
                              empty_override\<lparr>override_id := Some ''13'',
                                             student_ids := Some [Some ''5''],
                                             context_module_id := Some ''3''\<rparr>,
                              empty_override\<lparr>override_id := Some ''14'',
                                             course_id := Some ''2''\<rparr>],
                      visible_to_everyone := Some True, item_id := Some ''1''\<rparr>)))
   = [(''c'', [''student-8''], Some ''12'', Some ''3''),
      (''cc'', [''everyone''], Some ''14'', None)]"
proof -
  let ?mk = "\<lambda>n. replicate (Suc n) CHR ''c''"
  let ?g1 = "\<lambda>ovs :: override list option.
                Some \<lparr>target_sections = Some [''42''], target_students = Some []\<rparr>"
  let ?g2 = "\<lambda>ovs :: override list option.
                Some \<lparr>target_sections = Some [''42''], target_students = Some [''5'']\<rparr>"
  let ?r1 = "empty_json\<lparr>overrides := Some [empty_override\<lparr>override_id := Some ''9'',
                                                       course_section_id := Some ''42''\<rparr>],
                    visible_to_everyone := Some True, item_id := Some ''1''\<rparr>"
  let ?r2 = "empty_json\<lparr>overrides :=
                        Some [empty_override\<lparr>override_id := Some ''10'',
                                             course_section_id := Some ''42'',
                                             context_module_id := Some ''3''\<rparr>,
                              empty_override\<lparr>override_id := Some ''11'',
                                             student_ids := Some [Some ''6''],
                                             unassign_item := Some True\<rparr>,
                              empty_override\<lparr>override_id := Some ''12'',
                                             student_ids := Some [Some ''5'', Some ''8''],
                                             context_module_id := Some ''3''\<rparr>,
                              empty_override\<lparr>override_id := Some ''13'',
                                             student_ids := Some [Some ''5''],
                                             context_module_id := Some ''3''\<rparr>,
                              empty_override\<lparr>override_id := Some ''14'',
                                             course_id := Some ''2''\<rparr>],
                      visible_to_everyone := Some True, item_id := Some ''1''\<rparr>"
  have a: "derived_cards (deriveCards ?mk ?g1 ''everyone'' ?r1)
   = [\<lparr>key = ''c'', isValid = True, highlightCard = None, hasAssignees = True,
       card_date = (\<lambda>f. case f of DueAt \<Rightarrow> Undefined | UnlockAt \<Rightarrow> Undefined
                         | LockAt \<Rightarrow> Undefined | _ \<Rightarrow> Null),
       original_due_at = Undefined, selectedAssigneeIds = [''everyone''],
       defaultOptions = None, overrideId = Some ''1'', index = None,
       contextModuleId = None, contextModuleName = None\<rparr>,
      \<lparr>key = ''cc'', isValid = True, highlightCard = None, hasAssignees = True,
       card_date = (\<lambda>f. case f of DueAt \<Rightarrow> Undefined | UnlockAt \<Rightarrow> Undefined
                         | LockAt \<Rightarrow> Undefined | _ \<Rightarrow> Null),
       original_due_at = Undefined, selectedAssigneeIds = [''section-42''],
       defaultOptions = Some [''section-42''], overrideId = Some ''9'', index = None,
       contextModuleId = None, contextModuleName = None\<rparr>]"
    using initial_cards_derived
      [where makeCardId = ?mk and getOverriddenAssignees = ?g1
         and everyoneOptionId = "''everyone''" and resp = ?r1]
    unfolding Let_def
    by (simp add: empty_json_def empty_override_def truthy_def template_def)
  have b: "map (\<lambda>c. (key c, selectedAssigneeIds c, overrideId c, contextModuleId c))
     (derived_cards (deriveCards ?mk ?g2 ''everyone'' ?r2))
   = [(''c'', [''student-8''], Some ''12'', Some ''3''),
      (''cc'', [''everyone''], Some ''14'', None)]"
    using initial_cards_derived
      [where makeCardId = ?mk and getOverriddenAssignees = ?g2
         and everyoneOptionId = "''everyone''" and resp = ?r2]
    unfolding Let_def
    by (simp add: empty_json_def empty_override_def truthy_def template_def)
  show ?thesis using a b by simp
qed

section \<open>Properties of the card projection\<close>

lemma map_of_obj_set: "map_of (obj_set kvs k v) = (map_of kvs)(k \<mapsto> v)"
  by (induction kvs) (auto simp: fun_eq_iff)

lemma set_js_set_spread: "set (js_set_spread xs) = set xs"
  by (induction xs rule: js_set_spread.induct) auto

lemma distinct_js_set_spread: "distinct (js_set_spread xs)"
  by (induction xs rule: js_set_spread.induct) (auto simp: set_js_set_spread)

lemma js_set_spread_Nil: "(js_set_spread xs = []) = (xs = [])"
  by (cases xs) simp_all

lemma optionStep_eq:
  "optionStep env (d, s, i) ov =
     (d @ overrideOptions env ov, s @ d @ overrideOptions env ov,
      if noop_id ov \<noteq> Some ''1'' \<and> course_section_id ov = defaultSectionId env then Some 0 else i)"
  by (simp add: optionStep_def overrideOptions_def Let_def)

lemma foldl_optionStep:
  "foldl (optionStep env) (d, s, i) ovs = (d', s', i') \<Longrightarrow>
   d' = d @ concat (map (overrideOptions env) ovs) \<and>
   set s' = set s \<union> (if ovs = [] then {} else set d')"
proof (induction ovs arbitrary: d s i)
  case Nil
  then show ?case by simp
next
  case (Cons ov ovs)
  let ?d = "d @ overrideOptions env ov"
  let ?i = "if noop_id ov \<noteq> Some ''1'' \<and> course_section_id ov = defaultSectionId env then Some 0 else i"
  have "foldl (optionStep env) (?d, s @ ?d, ?i) ovs = (d', s', i')"
    using Cons.prems by (simp add: optionStep_eq)
  from Cons.IH[OF this]
  have d': "d' = ?d @ concat (map (overrideOptions env) ovs)"
    and s': "set s' = set (s @ ?d) \<union> (if ovs = [] then {} else set d')"
    by simp_all
  from d' s' show ?case by auto
qed

lemma foldl_optionStep_sets:
  assumes "foldl (optionStep env) ([], s, i) ovs = (d', s', i')"
  shows "d' = concat (map (overrideOptions env) ovs)" and "set s' = set s \<union> set d'"
  using foldl_optionStep[OF assms] by (auto split: if_splits)

lemma mapCard_Inr:
  assumes "mapCard env staged k sel = Inr (c, sel')"
  shows "\<exists>sc. map_of staged k = Some sc \<and> key c = k \<and>
           selectedAssigneeIds c =
             js_set_spread (concat (map (overrideOptions env) (or_empty (card_overrides sc)))) \<and>
           isValid c =
             (selectedAssigneeIds c \<noteq> [] \<and>
              validateDatetimes env (sc\<lparr>card_index := index c\<rparr>) (card_date c DueAt)
                (card_date c UnlockAt) (card_date c LockAt) = []) \<and>
           hasAssignees c = (selectedAssigneeIds c \<noteq> [])"
    and "set sel' = set sel \<union> set (selectedAssigneeIds c)"
proof -
  from assms obtain sc where sc: "map_of staged k = Some sc"
    by (auto simp: mapCard_def split: option.splits)
  let ?ovs = "case card_overrides sc of None \<Rightarrow> [] | Some ovs \<Rightarrow> ovs"
  obtain d s i where f: "foldl (optionStep env) ([], sel, card_index sc) ?ovs = (d, s, i)"
    by (cases "foldl (optionStep env) ([], sel, card_index sc) ?ovs") blast
  from assms sc f obtain init where init: "initialState env = Some init"
    by (auto simp: mapCard_def Let_def split: option.splits)
  have o: "?ovs = or_empty (card_overrides sc)" by (simp add: or_empty_def)
  from foldl_optionStep_sets[OF f]
  have d: "d = concat (map (overrideOptions env) (or_empty (card_overrides sc)))"
    and s: "set s = set sel \<union> set d" by (simp_all add: o)
  from assms sc f init have c: "sel' = s" "key c = k" "selectedAssigneeIds c = js_set_spread d"
    "isValid c = (length (js_set_spread d) > 0 \<and>
        length (validateDatetimes env (sc\<lparr>card_index := i\<rparr>)
                  ((case card_dates sc of None \<Rightarrow> (\<lambda>_. Undefined) | Some d \<Rightarrow> d) DueAt)
                  ((case card_dates sc of None \<Rightarrow> (\<lambda>_. Undefined) | Some d \<Rightarrow> d) UnlockAt)
                  ((case card_dates sc of None \<Rightarrow> (\<lambda>_. Undefined) | Some d \<Rightarrow> d) LockAt)) = 0)"
    "hasAssignees c = (length (js_set_spread d) > 0)" "index c = i"
    "card_date c = (case card_dates sc of None \<Rightarrow> (\<lambda>_. Undefined) | Some d \<Rightarrow> d)"
    by (auto simp: mapCard_def Let_def)
  show "\<exists>sc. map_of staged k = Some sc \<and> key c = k \<and>
           selectedAssigneeIds c =
             js_set_spread (concat (map (overrideOptions env) (or_empty (card_overrides sc)))) \<and>
           isValid c =
             (selectedAssigneeIds c \<noteq> [] \<and>
              validateDatetimes env (sc\<lparr>card_index := index c\<rparr>) (card_date c DueAt)
                (card_date c UnlockAt) (card_date c LockAt) = []) \<and>
           hasAssignees c = (selectedAssigneeIds c \<noteq> [])"
    using sc c d by (intro exI[of _ sc]) simp
  show "set sel' = set sel \<union> set (selectedAssigneeIds c)"
    using c s by (simp add: set_js_set_spread)
qed

lemma mapCards_Inr:
  "mapCards env staged ks sel = Inr (cs, sel') \<Longrightarrow>
   (\<forall>c\<in>set cs. \<exists>s s'. mapCard env staged (key c) s = Inr (c, s')) \<and>
   map key cs = ks \<and>
   set sel' = set sel \<union> (\<Union>c\<in>set cs. set (selectedAssigneeIds c))"
proof (induction ks arbitrary: sel cs sel')
  case Nil
  then show ?case by simp
next
  case (Cons k ks)
  from Cons.prems obtain c s1 where c: "mapCard env staged k sel = Inr (c, s1)"
    by (auto split: sum.splits)
  with Cons.prems obtain cs' where cs': "mapCards env staged ks s1 = Inr (cs', sel')" "cs = c # cs'"
    by (auto split: sum.splits)
  from mapCard_Inr[OF c] have kc: "key c = k" and s1: "set s1 = set sel \<union> set (selectedAssigneeIds c)"
    by auto
  have c': "\<exists>s s'. mapCard env staged (key c) s = Inr (c, s')"
    using c kc by blast
  from Cons.IH[OF cs'(1)] c' cs'(2) kc s1 show ?case by auto
qed

lemma set_insertCard: "set (insertCard c cs) = insert c (set cs)"
  by (induction cs) auto

lemma set_foldr_insertCard: "set (foldr insertCard cs []) = set cs"
  by (induction cs) (simp_all add: set_insertCard)

lemma set_sortCards: "set (sortCards env cs) = set cs"
proof -
  have "set (map snd (sort_key f (enumerate 0 cs))) = set cs" for f :: "nat \<times> card_spec \<Rightarrow> nat"
  proof -
    have "set (map snd (sort_key f (enumerate 0 cs))) = snd ` set (enumerate 0 cs)"
      by simp
    also have "\<dots> = set (map snd (enumerate 0 cs))"
      by (simp only: set_map)
    also have "\<dots> = set cs"
      by (simp only: map_snd_enumerate)
    finally show ?thesis .
  qed
  then show ?thesis by (simp add: sortCards_def set_foldr_insertCard)
qed

lemma cards_Inr:
  assumes "cards env staged = Inr (cs, disabled)"
  shows "\<forall>c\<in>set cs. \<exists>s s'. mapCard env staged (key c) s = Inr (c, s')"
    and "set disabled = (\<Union>c\<in>set cs. set (selectedAssigneeIds c))"
proof -
  from assms obtain mapped where m: "mapCards env staged (sortedRowKeys env staged) [] = Inr (mapped, disabled)"
    "cs = sortCards env mapped"
    by (auto simp: cards_def split: sum.splits)
  from mapCards_Inr[OF m(1)] m(2)
  show "\<forall>c\<in>set cs. \<exists>s s'. mapCard env staged (key c) s = Inr (c, s')"
    by (auto simp: set_sortCards)
  from mapCards_Inr[OF m(1)] m(2)
  show "set disabled = (\<Union>c\<in>set cs. set (selectedAssigneeIds c))"
    by (simp add: set_sortCards)
qed

lemma assigned_override_has_option:
  assumes "noop_id ov = Some ''1'' \<or> truthy (course_id ov) \<or> truthy (course_section_id ov) \<or>
           truthy (group_id ov) \<or> (\<exists>ids. student_ids ov = Some ids \<and> ids \<noteq> [])"
  shows "overrideOptions env ov \<noteq> []"
  using assms by (auto simp: overrideOptions_def studentOptions_def)

text \<open>
  C4. Every card of the projection comes from a staged card. Its selected assignees are the
  options of the overrides of that card, each once, in the order of their first occurrence, and
  it is valid exactly when that list is not empty and the validator reports no error for
  the dates of the card. So a card without selected assignees is invalid, and a card with an
  override that carries an assignee is valid when its dates have no error.
\<close>

theorem card_valid_iff:
  assumes "cards env staged = Inr (cs, disabled)" and "c \<in> set cs"
  shows "\<exists>sc. map_of staged (key c) = Some sc \<and>
      selectedAssigneeIds c =
        js_set_spread (concat (map (overrideOptions env) (or_empty (card_overrides sc)))) \<and>
      distinct (selectedAssigneeIds c) \<and>
      isValid c =
        (selectedAssigneeIds c \<noteq> [] \<and>
         validateDatetimes env (sc\<lparr>card_index := index c\<rparr>) (card_date c DueAt)
           (card_date c UnlockAt) (card_date c LockAt) = []) \<and>
      (selectedAssigneeIds c = [] \<longrightarrow> \<not> isValid c) \<and>
      ((\<exists>ov\<in>set (or_empty (card_overrides sc)).
           noop_id ov = Some ''1'' \<or> truthy (course_id ov) \<or> truthy (course_section_id ov) \<or>
           truthy (group_id ov) \<or> (\<exists>ids. student_ids ov = Some ids \<and> ids \<noteq> [])) \<longrightarrow>
       selectedAssigneeIds c \<noteq> [] \<and>
       isValid c =
         (validateDatetimes env (sc\<lparr>card_index := index c\<rparr>) (card_date c DueAt)
            (card_date c UnlockAt) (card_date c LockAt) = []))"
proof -
  from cards_Inr(1)[OF assms(1)] assms(2) obtain s s' where
    m: "mapCard env staged (key c) s = Inr (c, s')" by blast
  from mapCard_Inr(1)[OF m] obtain sc where sc: "map_of staged (key c) = Some sc"
    "selectedAssigneeIds c =
        js_set_spread (concat (map (overrideOptions env) (or_empty (card_overrides sc))))"
    "isValid c =
        (selectedAssigneeIds c \<noteq> [] \<and>
         validateDatetimes env (sc\<lparr>card_index := index c\<rparr>) (card_date c DueAt)
           (card_date c UnlockAt) (card_date c LockAt) = [])"
    by blast
  have d: "distinct (selectedAssigneeIds c)"
    by (simp add: sc(2) distinct_js_set_spread)
  have a: "selectedAssigneeIds c \<noteq> []"
    if "\<exists>ov\<in>set (or_empty (card_overrides sc)).
           noop_id ov = Some ''1'' \<or> truthy (course_id ov) \<or> truthy (course_section_id ov) \<or>
           truthy (group_id ov) \<or> (\<exists>ids. student_ids ov = Some ids \<and> ids \<noteq> [])"
  proof -
    from that obtain ov where ov: "ov \<in> set (or_empty (card_overrides sc))"
      "overrideOptions env ov \<noteq> []"
      using assigned_override_has_option by blast
    then have "concat (map (overrideOptions env) (or_empty (card_overrides sc))) \<noteq> []"
      by auto
    then show ?thesis by (simp add: sc(2) js_set_spread_Nil)
  qed
  show ?thesis
    using sc d a by (intro exI[of _ sc]) auto
qed

theorem card_valid_iff_witness:
  "cards
     \<lparr>sortedRowKeys = map fst, areCardsEqual = (\<lambda>a b. True),
      validateDatetimes =
        (\<lambda>c due unlock lock. if unlock = DateStr ''2'' \<and> lock = DateStr ''1'' then [''lock_at''] else []),
      defaultSectionId = Some ''1'', everyoneOptionKey = ''everyone'', initialState = Some [],
      engineOrder = (\<lambda>cs i. i)\<rparr>
     [(''0'', \<lparr>card_overrides = Some [empty_override\<lparr>course_section_id := Some ''7''\<rparr>],
              card_dates = None, card_index = Some 0, card_id = None\<rparr>),
      (''1'', \<lparr>card_overrides = Some [empty_override\<lparr>student_ids := Some [Some ''5'', Some ''6'']\<rparr>,
                                     empty_override], card_dates = None, card_index = Some 1,
              card_id = None\<rparr>),
      (''2'', \<lparr>card_overrides = Some [empty_override], card_dates = None, card_index = Some 2,
              card_id = None\<rparr>)]
   = Inr ([\<lparr>key = ''0'', isValid = True, highlightCard = Some False, hasAssignees = True,
       card_date = (\<lambda>_. Undefined), original_due_at = Undefined,
       selectedAssigneeIds = [''section-7''], defaultOptions = Some [''section-7''],
       overrideId = None, index = Some 0, contextModuleId = None, contextModuleName = None\<rparr>,
      \<lparr>key = ''1'', isValid = True, highlightCard = Some False, hasAssignees = True,
       card_date = (\<lambda>_. Undefined), original_due_at = Undefined,
       selectedAssigneeIds = [''student-5'', ''student-6''], defaultOptions = Some [''student-5'', ''student-6''],
       overrideId = None, index = Some 1, contextModuleId = None, contextModuleName = None\<rparr>,
      \<lparr>key = ''2'', isValid = False, highlightCard = Some False, hasAssignees = False,
       card_date = (\<lambda>_. Undefined), original_due_at = Undefined,
       selectedAssigneeIds = [], defaultOptions = Some [],
       overrideId = None, index = Some 2, contextModuleId = None, contextModuleName = None\<rparr>],
          [''section-7'', ''student-5'', ''student-6'', ''student-5'', ''student-6'']) \<and>
   \<not> isValid (\<lparr>key = ''2'', isValid = False, highlightCard = Some False, hasAssignees = False,
       card_date = (\<lambda>_. Undefined), original_due_at = Undefined,
       selectedAssigneeIds = [], defaultOptions = Some [],
       overrideId = None, index = Some 2, contextModuleId = None, contextModuleName = None\<rparr>)"
proof -
  let ?E = "\<lparr>sortedRowKeys = map fst, areCardsEqual = (\<lambda>a b. True),
      validateDatetimes =
        (\<lambda>c due unlock lock. if unlock = DateStr ''2'' \<and> lock = DateStr ''1'' then [''lock_at''] else []),
      defaultSectionId = Some ''1'', everyoneOptionKey = ''everyone'', initialState = Some [],
      engineOrder = (\<lambda>cs i. i)\<rparr>"
  let ?S = "[(''0'', \<lparr>card_overrides = Some [empty_override\<lparr>course_section_id := Some ''7''\<rparr>],
              card_dates = None, card_index = Some 0, card_id = None\<rparr>),
      (''1'', \<lparr>card_overrides = Some [empty_override\<lparr>student_ids := Some [Some ''5'', Some ''6'']\<rparr>,
                                     empty_override], card_dates = None, card_index = Some 1,
              card_id = None\<rparr>),
      (''2'', \<lparr>card_overrides = Some [empty_override], card_dates = None, card_index = Some 2,
              card_id = None\<rparr>)]"
  let ?C0 = "\<lparr>key = ''0'', isValid = True, highlightCard = Some False, hasAssignees = True,
       card_date = (\<lambda>_. Undefined), original_due_at = Undefined,
       selectedAssigneeIds = [''section-7''], defaultOptions = Some [''section-7''],
       overrideId = None, index = Some 0, contextModuleId = None, contextModuleName = None\<rparr>"
  let ?C1 = "\<lparr>key = ''1'', isValid = True, highlightCard = Some False, hasAssignees = True,
       card_date = (\<lambda>_. Undefined), original_due_at = Undefined,
       selectedAssigneeIds = [''student-5'', ''student-6''], defaultOptions = Some [''student-5'', ''student-6''],
       overrideId = None, index = Some 1, contextModuleId = None, contextModuleName = None\<rparr>"
  let ?C2 = "\<lparr>key = ''2'', isValid = False, highlightCard = Some False, hasAssignees = False,
       card_date = (\<lambda>_. Undefined), original_due_at = Undefined,
       selectedAssigneeIds = [], defaultOptions = Some [],
       overrideId = None, index = Some 2, contextModuleId = None, contextModuleName = None\<rparr>"
  have e: "cards ?E ?S = Inr ([?C0, ?C1, ?C2],
          [''section-7'', ''student-5'', ''student-6'', ''student-5'', ''student-6''])"
    by (simp add: cards_def mapCard_def optionStep_def studentOptions_def sortCards_def
        index_not_after_def Let_def truthy_def template_def empty_override_def)
  have m: "?C2 \<in> set [?C0, ?C1, ?C2]" by simp
  from card_valid_iff[OF e m] have "selectedAssigneeIds ?C2 = [] \<longrightarrow> \<not> isValid ?C2"
    by blast
  then have "\<not> isValid ?C2" by simp
  with e show ?thesis by simp
qed

lemma parsedCard_first:
  assumes "filter (\<lambda>a. option_id a \<notin> set dis) assignees = a # others"
  shows "map_of (parsedCard dis everyoneOptionId defSectionId hasModuleOverrides assignees) ''name''
           = Some (option_value a)"
    and "map_of (parsedCard dis everyoneOptionId defSectionId hasModuleOverrides assignees) ''id''
           = Some (if option_id a = everyoneOptionId then defSectionId
                   else nth_opt (split_dash (option_id a)) 1)"
  using assms by (simp_all add: parsedCard_def Let_def map_of_obj_set)

text \<open>
  C6, as amended. The list given to \<open>setDisabledOptionIds\<close> holds exactly the options
  selected on the cards of the projection. The assignee-change handler of the tray passes
  over every assignee whose option is disabled: what it hands on is made from the first
  assignee that is not disabled, and is the empty object when there is none. With the empty
  object \<open>handleChange\<close> adds nothing; it only processes the deleted assignees, and leaves the
  staged state as it is when there are none.
\<close>

theorem disabled_options_are_selected:
  "(cards env staged = Inr (cs, disabled) \<longrightarrow>
      set disabled = (\<Union>c\<in>set cs. set (selectedAssigneeIds c))) \<and>
   (let claimable = filter (\<lambda>a. option_id a \<notin> set disabledOptionIds) assignees;
        claimed = fst (handleCustomAssigneesChange disabledOptionIds everyoneOptionId defSectionId
                         hasModuleOverrides allOptions assignees deletedAssignees)
    in (claimable = [] \<longrightarrow> claimed = []) \<and>
       (claimable \<noteq> [] \<longrightarrow>
          option_id (hd claimable) \<notin> set disabledOptionIds \<and>
          map_of claimed ''name'' = Some (option_value (hd claimable)) \<and>
          map_of claimed ''id'' =
            Some (if option_id (hd claimable) = everyoneOptionId then defSectionId
                  else nth_opt (split_dash (option_id (hd claimable))) 1))) \<and>
   handleChange uid handleAssigneeAdd getAllOverridesFromCards handleAssigneeRemove st cardId
     [] deleted
   = (if deleted = [] then Inr st
      else deleteEach
             (\<lambda>s d. handleAssigneeDeletion getAllOverridesFromCards handleAssigneeRemove s cardId d)
             st deleted)"
proof -
  let ?claimable = "filter (\<lambda>a. option_id a \<notin> set disabledOptionIds) assignees"
  let ?claimed = "parsedCard disabledOptionIds everyoneOptionId defSectionId hasModuleOverrides
                    assignees"
  have 1: "cards env staged = Inr (cs, disabled) \<longrightarrow>
      set disabled = (\<Union>c\<in>set cs. set (selectedAssigneeIds c))"
    using cards_Inr(2)[of env staged cs disabled] by blast
  have 2: "?claimed = []" if "?claimable = []"
    using that by (simp add: parsedCard_def)
  have 3: "option_id (hd ?claimable) \<notin> set disabledOptionIds \<and>
          map_of ?claimed ''name'' = Some (option_value (hd ?claimable)) \<and>
          map_of ?claimed ''id'' =
            Some (if option_id (hd ?claimable) = everyoneOptionId then defSectionId
                  else nth_opt (split_dash (option_id (hd ?claimable))) 1)"
    if n: "?claimable \<noteq> []"
  proof -
    from n obtain a others where a: "?claimable = a # others" by (cases ?claimable) auto
    have "a \<in> set ?claimable" unfolding a by simp
    then have "option_id a \<notin> set disabledOptionIds" by simp
    then show ?thesis
      using parsedCard_first[OF a] by (simp add: a)
  qed
  have 4: "handleChange uid handleAssigneeAdd getAllOverridesFromCards handleAssigneeRemove st cardId
     [] deleted
   = (if deleted = [] then Inr st
      else deleteEach
             (\<lambda>s d. handleAssigneeDeletion getAllOverridesFromCards handleAssigneeRemove s cardId d)
             st deleted)"
    by (simp add: handleChange_def)
  show ?thesis
    unfolding Let_def handleCustomAssigneesChange_def fst_conv
    using 1 2 3 4 by blast
qed

theorem disabled_options_are_selected_witness:
  "cards
     \<lparr>sortedRowKeys = map fst, areCardsEqual = (\<lambda>a b. True),
      validateDatetimes =
        (\<lambda>c due unlock lock. if unlock = DateStr ''2'' \<and> lock = DateStr ''1'' then [''lock_at''] else []),
      defaultSectionId = Some ''1'', everyoneOptionKey = ''everyone'', initialState = Some [],
      engineOrder = (\<lambda>cs i. i)\<rparr>
     [(''0'', \<lparr>card_overrides = Some [empty_override\<lparr>course_section_id := Some ''7''\<rparr>],
              card_dates = None, card_index = Some 0, card_id = None\<rparr>),
      (''1'', \<lparr>card_overrides = Some [empty_override\<lparr>student_ids := Some [Some ''5'', Some ''6'']\<rparr>,
                                     empty_override], card_dates = None, card_index = Some 1,
              card_id = None\<rparr>),
      (''2'', \<lparr>card_overrides = Some [empty_override], card_dates = None, card_index = Some 2,
              card_id = None\<rparr>)]
   = Inr ([\<lparr>key = ''0'', isValid = True, highlightCard = Some False, hasAssignees = True,
       card_date = (\<lambda>_. Undefined), original_due_at = Undefined,
       selectedAssigneeIds = [''section-7''], defaultOptions = Some [''section-7''],
       overrideId = None, index = Some 0, contextModuleId = None, contextModuleName = None\<rparr>,
      \<lparr>key = ''1'', isValid = True, highlightCard = Some False, hasAssignees = True,
       card_date = (\<lambda>_. Undefined), original_due_at = Undefined,
       selectedAssigneeIds = [''student-5'', ''student-6''], defaultOptions = Some [''student-5'', ''student-6''],
       overrideId = None, index = Some 1, contextModuleId = None, contextModuleName = None\<rparr>,
      \<lparr>key = ''2'', isValid = False, highlightCard = Some False, hasAssignees = False,
       card_date = (\<lambda>_. Undefined), original_due_at = Undefined,
       selectedAssigneeIds = [], defaultOptions = Some [],
       overrideId = None, index = Some 2, contextModuleId = None, contextModuleName = None\<rparr>],
          [''section-7'', ''student-5'', ''student-6'', ''student-5'', ''student-6'']) \<and>
   set [''section-7'', ''student-5'', ''student-6'', ''student-5'', ''student-6'']
   = set [''section-7''] \<union> set [''student-5'', ''student-6''] \<union> set [] \<and>
   fst (handleCustomAssigneesChange [''section-7'', ''student-5'', ''student-6''] ''everyone''
          (Some ''1'') False []
          [\<lparr>option_id = ''section-7'', option_value = Some ''Section 7'',
            groupCategoryId = None\<rparr>] []) = [] \<and>
   map_of (fst (handleCustomAssigneesChange [''section-7'', ''student-5'', ''student-6'']
                  ''everyone'' (Some ''1'') False []
                  [\<lparr>option_id = ''section-7'', option_value = Some ''Section 7'',
                    groupCategoryId = None\<rparr>,
                   \<lparr>option_id = ''student-9'', option_value = Some ''Student 9'',
                    groupCategoryId = None\<rparr>] [])) ''name''
   = Some (Some ''Student 9'') \<and>
   handleChange (\<lambda>n. replicate (Suc n) CHR ''u'') (\<lambda>a ovs k d. [empty_override]) (\<lambda>cs. [])
     (\<lambda>t ovs. [])
     \<lparr>stagedCards = [(''2'', \<lparr>card_overrides = Some [empty_override], card_dates = None,
                              card_index = Some 2, card_id = None\<rparr>)],
      stagedOverrides = [], uidCount = 0\<rparr> (KStr ''2'') [] []
   = Inr \<lparr>stagedCards = [(''2'', \<lparr>card_overrides = Some [empty_override], card_dates = None,
                                  card_index = Some 2, card_id = None\<rparr>)],
          stagedOverrides = [], uidCount = 0\<rparr>"
proof -
  let ?E = "\<lparr>sortedRowKeys = map fst, areCardsEqual = (\<lambda>a b. True),
      validateDatetimes =
        (\<lambda>c due unlock lock. if unlock = DateStr ''2'' \<and> lock = DateStr ''1'' then [''lock_at''] else []),
      defaultSectionId = Some ''1'', everyoneOptionKey = ''everyone'', initialState = Some [],
      engineOrder = (\<lambda>cs i. i)\<rparr>"
  let ?S = "[(''0'', \<lparr>card_overrides = Some [empty_override\<lparr>course_section_id := Some ''7''\<rparr>],
              card_dates = None, card_index = Some 0, card_id = None\<rparr>),
      (''1'', \<lparr>card_overrides = Some [empty_override\<lparr>student_ids := Some [Some ''5'', Some ''6'']\<rparr>,
                                     empty_override], card_dates = None, card_index = Some 1,
              card_id = None\<rparr>),
      (''2'', \<lparr>card_overrides = Some [empty_override], card_dates = None, card_index = Some 2,
              card_id = None\<rparr>)]"
  let ?C0 = "\<lparr>key = ''0'', isValid = True, highlightCard = Some False, hasAssignees = True,
       card_date = (\<lambda>_. Undefined), original_due_at = Undefined,
       selectedAssigneeIds = [''section-7''], defaultOptions = Some [''section-7''],
       overrideId = None, index = Some 0, contextModuleId = None, contextModuleName = None\<rparr>"
  let ?C1 = "\<lparr>key = ''1'', isValid = True, highlightCard = Some False, hasAssignees = True,
       card_date = (\<lambda>_. Undefined), original_due_at = Undefined,
       selectedAssigneeIds = [''student-5'', ''student-6''], defaultOptions = Some [''student-5'', ''student-6''],
       overrideId = None, index = Some 1, contextModuleId = None, contextModuleName = None\<rparr>"
  let ?C2 = "\<lparr>key = ''2'', isValid = False, highlightCard = Some False, hasAssignees = False,
       card_date = (\<lambda>_. Undefined), original_due_at = Undefined,
       selectedAssigneeIds = [], defaultOptions = Some [],
       overrideId = None, index = Some 2, contextModuleId = None, contextModuleName = None\<rparr>"
  let ?D = "[''section-7'', ''student-5'', ''student-6'', ''student-5'', ''student-6'']"
  let ?dis = "[''section-7'', ''student-5'', ''student-6'']"
  let ?o7 = "\<lparr>option_id = ''section-7'', option_value = Some ''Section 7'', groupCategoryId = None\<rparr>"
  let ?o9 = "\<lparr>option_id = ''student-9'', option_value = Some ''Student 9'', groupCategoryId = None\<rparr>"
  let ?st = "\<lparr>stagedCards = [(''2'', \<lparr>card_overrides = Some [empty_override], card_dates = None,
                              card_index = Some 2, card_id = None\<rparr>)],
      stagedOverrides = [], uidCount = 0\<rparr>"
  have e: "cards ?E ?S = Inr ([?C0, ?C1, ?C2], ?D)"
    by (simp add: cards_def mapCard_def optionStep_def studentOptions_def sortCards_def
        index_not_after_def Let_def truthy_def template_def empty_override_def)
  have f1: "filter (\<lambda>a. option_id a \<notin> set ?dis) [?o7] = []" by simp
  have f2: "filter (\<lambda>a. option_id a \<notin> set ?dis) [?o7, ?o9] = [?o9]" by simp
  note t1 = disabled_options_are_selected
      [where env = ?E and staged = ?S and cs = "[?C0, ?C1, ?C2]" and disabled = ?D
         and assignees = "[?o7]" and disabledOptionIds = ?dis
         and everyoneOptionId = "''everyone''" and defSectionId = "Some ''1''"
         and hasModuleOverrides = False and allOptions = "[]" and deletedAssignees = "[]"
         and uid = "\<lambda>n. replicate (Suc n) CHR ''u''"
         and handleAssigneeAdd = "\<lambda>a ovs k d. [empty_override]"
         and getAllOverridesFromCards = "\<lambda>cs. []" and handleAssigneeRemove = "\<lambda>t ovs. []"
         and st = ?st and cardId = "KStr ''2''" and deleted = "[]", unfolded Let_def f1]
  note t2 = disabled_options_are_selected
      [where env = ?E and staged = ?S and cs = "[?C0, ?C1, ?C2]" and disabled = ?D
         and assignees = "[?o7, ?o9]" and disabledOptionIds = ?dis
         and everyoneOptionId = "''everyone''" and defSectionId = "Some ''1''"
         and hasModuleOverrides = False and allOptions = "[]" and deletedAssignees = "[]"
         and uid = "\<lambda>n. replicate (Suc n) CHR ''u''"
         and handleAssigneeAdd = "\<lambda>a ovs k d. [empty_override]"
         and getAllOverridesFromCards = "\<lambda>cs. []" and handleAssigneeRemove = "\<lambda>t ovs. []"
         and st = ?st and cardId = "KStr ''2''" and deleted = "[]", unfolded Let_def f2]
  from t1 e have a: "set ?D = (\<Union>c\<in>set [?C0, ?C1, ?C2]. set (selectedAssigneeIds c))"
    by blast
  then have a': "set ?D = set [''section-7''] \<union> set [''student-5'', ''student-6''] \<union> set []"
    by simp
  from t1 have b: "fst (handleCustomAssigneesChange ?dis ''everyone'' (Some ''1'') False []
          [?o7] []) = []"
    by blast
  from t2 have c: "map_of (fst (handleCustomAssigneesChange ?dis ''everyone'' (Some ''1'') False []
          [?o7, ?o9] [])) ''name'' = Some (Some ''Student 9'')"
    by simp
  from t1 have d: "handleChange (\<lambda>n. replicate (Suc n) CHR ''u'') (\<lambda>a ovs k d. [empty_override])
     (\<lambda>cs. []) (\<lambda>t ovs. []) ?st (KStr ''2'') [] [] = Inr ?st"
    by simp
  show ?thesis using e a' b c d by blast
qed

text \<open>
  The claim as stated fails: the projection does not keep an assignee from being selected on
  two cards. Two staged cards for the same section give two valid cards that both select it.
\<close>

theorem same_assignee_on_two_cards:
  "map_sum id (\<lambda>r. (map key (fst r), map selectedAssigneeIds (fst r), map isValid (fst r), snd r))
     (cards
        \<lparr>sortedRowKeys = map fst, areCardsEqual = (\<lambda>a b. True),
         validateDatetimes = (\<lambda>c due unlock lock. []),
         defaultSectionId = Some ''1'', everyoneOptionKey = ''everyone'', initialState = Some [],
         engineOrder = (\<lambda>cs i. i)\<rparr>
        [(''0'', \<lparr>card_overrides = Some [empty_override\<lparr>course_section_id := Some ''7''\<rparr>],
                 card_dates = None, card_index = Some 0, card_id = None\<rparr>),
         (''1'', \<lparr>card_overrides = Some [empty_override\<lparr>course_section_id := Some ''7''\<rparr>],
                 card_dates = None, card_index = Some 1, card_id = None\<rparr>)])
   = Inr ([''0'', ''1''], [[''section-7''], [''section-7'']], [True, True],
          [''section-7'', ''section-7''])"
  by (simp add: cards_def mapCard_def optionStep_def studentOptions_def sortCards_def
      index_not_after_def Let_def truthy_def template_def empty_override_def)

section \<open>Properties of the edit handlers\<close>

text \<open>
  C10. Clearing a date with the empty string stores \<open>null\<close> in the dates of the card and in
  the overrides of the card, with the overridden flag \<open>false\<close>, but stores the empty string
  in every staged override of the same row key: the two values differ.
\<close>

theorem cleared_date_diverges:
  assumes "map_of (stagedCards st) (key_string cardId) = Some c"
  shows "(let st' = handleDatesUpdate datesFromOverride st cardId dateType (DateStr [])
          in (\<exists>c'. map_of (stagedCards st') (key_string cardId) = Some c' \<and>
                   (\<forall>d. card_dates c = Some d \<longrightarrow> card_dates c' = Some (d(dateType := Null))) \<and>
                   length (or_empty (card_overrides c')) = length (or_empty (card_overrides c)) \<and>
                   list_all (\<lambda>ov. dates ov dateType = Null \<and> overridden ov dateType = Some False)
                     (or_empty (card_overrides c'))) \<and>
             length (stagedOverrides st') = length (stagedOverrides st) \<and>
             (\<forall>i<length (stagedOverrides st).
                if opt_key_string (rowKey (stagedOverrides st ! i)) = key_string cardId
                then dates (stagedOverrides st' ! i) dateType = DateStr [] \<and>
                     dates (stagedOverrides st' ! i) dateType \<noteq> Null
                else stagedOverrides st' ! i = stagedOverrides st ! i))"
proof -
  let ?st' = "handleDatesUpdate datesFromOverride st cardId dateType (DateStr [])"
  let ?new = "map (\<lambda>ov. ov\<lparr>dates := (dates ov)(dateType := Null),
                         overridden := (overridden ov)(dateType := Some False)\<rparr>)
                (or_empty (card_overrides c))"
  let ?c' = "\<lparr>card_overrides = Some ?new,
             card_dates = Some (case card_dates c of
                                  Some d \<Rightarrow> d(dateType := Null)
                                | None \<Rightarrow> datesFromOverride (case ?new of [] \<Rightarrow> None | ov # _ \<Rightarrow> Some ov)),
             card_index = card_index c, card_id = None\<rparr>"
  have cards: "stagedCards ?st' = obj_set (stagedCards st) (key_string cardId) ?c'"
    using assms
    by (simp add: handleDatesUpdate_def Let_def or_empty_def date_truthy_def
        split: option.splits)
  have c': "map_of (stagedCards ?st') (key_string cardId) = Some ?c'"
    by (simp only: cards map_of_obj_set) simp
  have 1: "\<forall>d. card_dates c = Some d \<longrightarrow> card_dates ?c' = Some (d(dateType := Null))"
    by simp
  have 2: "length (or_empty (card_overrides ?c')) = length (or_empty (card_overrides c))"
    by (simp add: or_empty_def)
  have 3: "list_all (\<lambda>ov. dates ov dateType = Null \<and> overridden ov dateType = Some False)
                     (or_empty (card_overrides ?c'))"
    by (simp add: or_empty_def list_all_iff)
  have so: "stagedOverrides ?st' =
      map (\<lambda>ov. if opt_key_string (rowKey ov) = key_string cardId
                 then ov\<lparr>dates := (dates ov)(dateType := DateStr [])\<rparr> else ov)
          (stagedOverrides st)"
    by (simp add: handleDatesUpdate_def Let_def)
  have 4: "length (stagedOverrides ?st') = length (stagedOverrides st)"
    by (simp add: so)
  have 5: "\<forall>i<length (stagedOverrides st).
                if opt_key_string (rowKey (stagedOverrides st ! i)) = key_string cardId
                then dates (stagedOverrides ?st' ! i) dateType = DateStr [] \<and>
                     dates (stagedOverrides ?st' ! i) dateType \<noteq> Null
                else stagedOverrides ?st' ! i = stagedOverrides st ! i"
    by (simp add: so)
  have "\<exists>c'. map_of (stagedCards ?st') (key_string cardId) = Some c' \<and>
                   (\<forall>d. card_dates c = Some d \<longrightarrow> card_dates c' = Some (d(dateType := Null))) \<and>
                   length (or_empty (card_overrides c')) = length (or_empty (card_overrides c)) \<and>
                   list_all (\<lambda>ov. dates ov dateType = Null \<and> overridden ov dateType = Some False)
                     (or_empty (card_overrides c'))"
    using c' 1 2 3 by blast
  then show ?thesis
    unfolding Let_def using 4 5 by blast
qed

theorem cleared_date_diverges_witness:
  "map (\<lambda>ov. dates ov DueAt) (stagedOverrides
     (handleDatesUpdate (\<lambda>ov. case ov of None \<Rightarrow> (\<lambda>_. Undefined) | Some v \<Rightarrow> dates v)
      \<lparr>stagedCards =
         [(''0'', \<lparr>card_overrides = Some [empty_override\<lparr>course_section_id := Some ''7'', rowKey := Some (KNum 0),
                                      dates := (\<lambda>_. Undefined)(DueAt := DateStr ''2024-05-01'')\<rparr>],
                  card_dates = Some ((\<lambda>_. Undefined)(DueAt := DateStr ''2024-05-01'')),
                  card_index = Some 0, card_id = None\<rparr>)],
       stagedOverrides = [empty_override\<lparr>course_section_id := Some ''7'', rowKey := Some (KNum 0),
                                      dates := (\<lambda>_. Undefined)(DueAt := DateStr ''2024-05-01'')\<rparr>],
       uidCount = 0\<rparr>
      (KStr ''0'') DueAt (DateStr []))) = [DateStr []] \<and>
   map (\<lambda>(k, c). (k, map_option (\<lambda>d. d DueAt) (card_dates c),
                  map (\<lambda>ov. (dates ov DueAt, overridden ov DueAt)) (or_empty (card_overrides c))))
     (stagedCards
     (handleDatesUpdate (\<lambda>ov. case ov of None \<Rightarrow> (\<lambda>_. Undefined) | Some v \<Rightarrow> dates v)
      \<lparr>stagedCards =
         [(''0'', \<lparr>card_overrides = Some [empty_override\<lparr>course_section_id := Some ''7'', rowKey := Some (KNum 0),
                                      dates := (\<lambda>_. Undefined)(DueAt := DateStr ''2024-05-01'')\<rparr>],
                  card_dates = Some ((\<lambda>_. Undefined)(DueAt := DateStr ''2024-05-01'')),
                  card_index = Some 0, card_id = None\<rparr>)],
       stagedOverrides = [empty_override\<lparr>course_section_id := Some ''7'', rowKey := Some (KNum 0),
                                      dates := (\<lambda>_. Undefined)(DueAt := DateStr ''2024-05-01'')\<rparr>],
       uidCount = 0\<rparr>
      (KStr ''0'') DueAt (DateStr [])))
   = [(''0'', Some Null, [(Null, Some False)])]"
proof -
  let ?dfo = "\<lambda>ov. case ov of None \<Rightarrow> (\<lambda>_. Undefined) | Some v \<Rightarrow> dates v"
  let ?ov = "empty_override\<lparr>course_section_id := Some ''7'', rowKey := Some (KNum 0),
                                      dates := (\<lambda>_. Undefined)(DueAt := DateStr ''2024-05-01'')\<rparr>"
  let ?c = "\<lparr>card_overrides = Some [?ov],
            card_dates = Some ((\<lambda>_. Undefined)(DueAt := DateStr ''2024-05-01'')),
            card_index = Some 0, card_id = None\<rparr>"
  let ?st = "\<lparr>stagedCards = [(''0'', ?c)], stagedOverrides = [?ov], uidCount = 0\<rparr>"
  let ?st' = "handleDatesUpdate ?dfo ?st (KStr ''0'') DueAt (DateStr [])"
  have h: "map_of (stagedCards ?st) (key_string (KStr ''0'')) = Some ?c"
    by (simp add: key_string_def)
  note t = cleared_date_diverges
      [where st = ?st and cardId = "KStr ''0''" and c = ?c and datesFromOverride = ?dfo
         and dateType = DueAt, OF h]
  have k: "opt_key_string (rowKey (stagedOverrides ?st ! 0)) = key_string (KStr ''0'')"
    by (simp add: opt_key_string_def key_string_def)
  from t have "length (stagedOverrides ?st') = 1"
    and "dates (stagedOverrides ?st' ! 0) DueAt = DateStr []"
    unfolding Let_def using k by auto
  then have a: "map (\<lambda>ov. dates ov DueAt) (stagedOverrides ?st') = [DateStr []]"
    by (cases "stagedOverrides ?st'") auto
  have b: "map (\<lambda>(k, c). (k, map_option (\<lambda>d. d DueAt) (card_dates c),
                  map (\<lambda>ov. (dates ov DueAt, overridden ov DueAt)) (or_empty (card_overrides c))))
     (stagedCards ?st') = [(''0'', Some Null, [(Null, Some False)])]"
    by (simp add: handleDatesUpdate_def Let_def key_string_def or_empty_def date_truthy_def)
  show ?thesis using a b by simp
qed




















lemma distinct_singleton_list:
  assumes "distinct ys" and "set ys = {p}"
  shows "ys = [p]"
proof (cases ys)
  case Nil
  with assms show ?thesis by simp
next
  case (Cons a rest)
  with assms have a: "a = p" and r: "set rest \<subseteq> {p}" "p \<notin> set rest" by auto
  have "rest = []"
  proof (cases rest)
    case Nil
    then show ?thesis .
  next
    case (Cons b more)
    with r show ?thesis by auto
  qed
  with Cons a show ?thesis by simp
qed






end
